theory Spec2Isabelle
  imports Main "HOL-Library.Word" "HOL-Library.Sublist"
begin

section \<open>Data\<close>

text \<open>
  A Python \<open>bytes\<close> object is a list of 8-bit words. A Python \<open>str\<close> is a
  \<open>string\<close>: one \<open>char\<close> per code point, which covers the code points below 256
  (U+0000 to U+00FF).
\<close>

type_synonym byte = "8 word"
type_synonym bytes = "byte list"

subsection \<open>Magic-byte signatures\<close>

text \<open>The byte literals of \<open>detect_image_format\<close> (generate\_image.py, lines 67 to 73).\<close>

definition PNG_SIG :: bytes where
  \<comment> \<open>\<^verbatim>\<open>b'\x89PNG\r\n\x1a\n'\<close>\<close>
  "PNG_SIG = [0x89, 0x50, 0x4E, 0x47, 0x0D, 0x0A, 0x1A, 0x0A]"

definition JPEG_SIG :: bytes where
  \<comment> \<open>\<^verbatim>\<open>b'\xff\xd8'\<close>\<close>
  "JPEG_SIG = [0xFF, 0xD8]"

definition RIFF :: bytes where
  \<comment> \<open>\<^verbatim>\<open>b'RIFF'\<close>\<close>
  "RIFF = [0x52, 0x49, 0x46, 0x46]"

definition WEBP :: bytes where
  \<comment> \<open>\<^verbatim>\<open>b'WEBP'\<close>\<close>
  "WEBP = [0x57, 0x45, 0x42, 0x50]"

definition GIF87a :: bytes where
  \<comment> \<open>\<^verbatim>\<open>b'GIF87a'\<close>\<close>
  "GIF87a = [0x47, 0x49, 0x46, 0x38, 0x37, 0x61]"

definition GIF89a :: bytes where
  \<comment> \<open>\<^verbatim>\<open>b'GIF89a'\<close>\<close>
  "GIF89a = [0x47, 0x49, 0x46, 0x38, 0x39, 0x61]"

section \<open>The format sniffer and the extension table\<close>

text \<open>
  A Python slice \<open>b[:n]\<close> is \<open>take n b\<close> and \<open>b[i:j]\<close> is \<open>take (j - i) (drop i b)\<close>:
  both are shorter than asked on a short buffer and never raise.
\<close>

definition detect_image_format :: "bytes \<Rightarrow> string \<times> string" where
  "detect_image_format image_bytes =
     (if take 8 image_bytes = PNG_SIG then (''image/png'', ''.png'')
      else if take 2 image_bytes = JPEG_SIG then (''image/jpeg'', ''.jpg'')
      else if take 4 image_bytes = RIFF \<and> take 4 (drop 8 image_bytes) = WEBP
        then (''image/webp'', ''.webp'')
      else if take 6 image_bytes = GIF87a \<or> take 6 image_bytes = GIF89a
        then (''image/gif'', ''.gif'')
      else (''image/png'', ''.png''))"

text \<open>The dictionary of \<open>get_extension\<close> as an association list, looked up with a default.\<close>

definition extensions :: "(string \<times> string) list" where
  "extensions =
     [(''image/png'', ''.png''),
      (''image/jpeg'', ''.jpg''),
      (''image/webp'', ''.webp''),
      (''image/gif'', ''.gif'')]"

definition get_extension :: "string \<Rightarrow> string" where
  "get_extension mime_type =
     (case map_of extensions mime_type of Some e \<Rightarrow> e | None \<Rightarrow> ''.png'')"

section \<open>Strings\<close>

text \<open>
  The string operations of the Python runtime that \<open>main\<close> uses, on code points below
  256. \<open>is_space\<close> is \<open>str.isspace\<close> on one character, which is also what \<open>\s\<close>
  matches in a \<open>str\<close> pattern and what \<open>str.strip()\<close> removes; \<open>is_word\<close> is what
  \<open>\w\<close> matches (alphanumeric in the sense of \<open>str.isalnum\<close>, or the underscore);
  \<open>lower_char\<close> is \<open>str.lower\<close> on one character.
\<close>

definition is_space :: "char \<Rightarrow> bool" where
  "is_space c =
     (let n = (of_char c :: nat)
      in (9 \<le> n \<and> n \<le> 13) \<or> (28 \<le> n \<and> n \<le> 32) \<or> n = 133 \<or> n = 160)"

definition is_word :: "char \<Rightarrow> bool" where
  "is_word c =
     (let n = (of_char c :: nat)
      in (48 \<le> n \<and> n \<le> 57) \<or> (65 \<le> n \<and> n \<le> 90) \<or> n = 95 \<or> (97 \<le> n \<and> n \<le> 122)
         \<or> n = 170 \<or> n = 178 \<or> n = 179 \<or> n = 181 \<or> n = 185 \<or> n = 186
         \<or> (188 \<le> n \<and> n \<le> 190) \<or> (192 \<le> n \<and> n \<le> 214)
         \<or> (216 \<le> n \<and> n \<le> 246) \<or> (248 \<le> n \<and> n \<le> 255))"

definition lower_char :: "char \<Rightarrow> char" where
  "lower_char c =
     (let n = (of_char c :: nat)
      in if (65 \<le> n \<and> n \<le> 90) \<or> (192 \<le> n \<and> n \<le> 214) \<or> (216 \<le> n \<and> n \<le> 222)
         then char_of (n + 32) else c)"

definition lower :: "string \<Rightarrow> string" where
  \<comment> \<open>\<open>s.lower()\<close>\<close>
  "lower s = map lower_char s"

definition strip :: "string \<Rightarrow> string" where
  \<comment> \<open>\<open>s.strip()\<close>: leading and trailing whitespace removed\<close>
  "strip s = rev (dropWhile is_space (rev (dropWhile is_space s)))"

definition sub_non_word_space_hyphen :: "string \<Rightarrow> string" where
  \<comment> \<open>\<^verbatim>\<open>re.sub(r'[^\w\s-]', '', s)\<close>: every character outside the class is deleted\<close>
  "sub_non_word_space_hyphen s = filter (\<lambda>c. is_word c \<or> is_space c \<or> c = CHR ''-'') s"

definition hyphen_or_space :: "char \<Rightarrow> bool" where
  \<comment> \<open>the class \<^verbatim>\<open>[-\s]\<close>\<close>
  "hyphen_or_space c = (c = CHR ''-'' \<or> is_space c)"

function sub_hyphen_space_runs :: "string \<Rightarrow> string" where
  \<comment> \<open>\<^verbatim>\<open>re.sub(r'[-\s]+', '-', s)\<close>: scanning from the left, each maximal run of
      class characters becomes one hyphen\<close>
  "sub_hyphen_space_runs [] = []"
| "sub_hyphen_space_runs (c # cs) =
     (if hyphen_or_space c then CHR ''-'' # sub_hyphen_space_runs (dropWhile hyphen_or_space cs)
      else c # sub_hyphen_space_runs cs)"
  by pat_completeness auto
termination
  by (relation "measure length") (auto simp: length_dropWhile_le less_Suc_eq_le)

function str_nat :: "nat \<Rightarrow> string" where
  \<comment> \<open>\<open>str(n)\<close> of a non-negative integer: its decimal digits\<close>
  "str_nat n =
     (if n < 10 then [''0123456789'' ! n] else str_nat (n div 10) @ [''0123456789'' ! (n mod 10)])"
  by pat_completeness auto
termination
  by (relation "measure id") auto

declare str_nat.simps [simp del]

definition str_int :: "int \<Rightarrow> string" where
  "str_int i = (if i < 0 then CHR ''-'' # str_nat (nat (- i)) else str_nat (nat i))"

fun join :: "string \<Rightarrow> string list \<Rightarrow> string" where
  \<comment> \<open>\<open>sep.join(xs)\<close>\<close>
  "join sep [] = []"
| "join sep [x] = x"
| "join sep (x # y # ys) = x @ sep @ join sep (y # ys)"

fun split_sep :: "string \<Rightarrow> string list" where
  \<comment> \<open>\<^verbatim>\<open>s.split('/')\<close>\<close>
  "split_sep [] = [[]]"
| "split_sep (c # cs) =
     (if c = CHR ''/'' then [] # split_sep cs
      else (case split_sep cs of [] \<Rightarrow> [[c]] | x # xs \<Rightarrow> (c # x) # xs))"

fun rfind :: "char \<Rightarrow> string \<Rightarrow> int" where
  \<comment> \<open>\<open>s.rfind(c)\<close>: the last index of \<open>c\<close>, or \<open>-1\<close>\<close>
  "rfind c [] = - 1"
| "rfind c (x # xs) =
     (let r = rfind c xs in if 0 \<le> r then r + 1 else if x = c then 0 else - 1)"

section \<open>Paths\<close>

text \<open>
  The part of \<open>pathlib\<close> that \<open>main\<close> and \<open>load_image_as_base64\<close> use, for the POSIX
  flavour (\<open>PurePosixPath\<close>, as in CPython 3.10 to 3.12). A path object holds its root
  (empty, one slash or two slashes) and its components; parsing drops empty components
  and single-dot components.
\<close>

record path =
  path_root :: string
  path_parts :: "string list"

definition splitroot :: "string \<Rightarrow> string \<times> string" where
  "splitroot part =
     (if part \<noteq> [] \<and> hd part = CHR ''/'' then
        (let stripped_part = dropWhile (\<lambda>c. c = CHR ''/'') part
         in if length part - length stripped_part = 2 then (''//'', stripped_part)
            else (''/'', stripped_part))
      else ([], part))"

definition Path :: "string \<Rightarrow> path" where
  \<comment> \<open>\<open>Path(s)\<close>\<close>
  "Path s =
     (case splitroot s of (r, rel) \<Rightarrow>
        \<lparr>path_root = r, path_parts = filter (\<lambda>x. x \<noteq> [] \<and> x \<noteq> ''.'') (split_sep rel)\<rparr>)"

definition truediv :: "path \<Rightarrow> string \<Rightarrow> path" where
  \<comment> \<open>\<open>p / s\<close>: an absolute right operand replaces the left one\<close>
  "truediv p s =
     (let q = Path s
      in if path_root q \<noteq> [] then q
         else \<lparr>path_root = path_root p, path_parts = path_parts p @ path_parts q\<rparr>)"

definition path_str :: "path \<Rightarrow> string" where
  \<comment> \<open>\<open>str(p)\<close>\<close>
  "path_str p =
     (let s = path_root p @ join ''/'' (path_parts p) in if s = [] then ''.'' else s)"

definition path_name :: "path \<Rightarrow> string" where
  \<comment> \<open>\<open>p.name\<close>: the last component, empty when there is none\<close>
  "path_name p = (if path_parts p = [] then [] else last (path_parts p))"

definition path_suffix :: "path \<Rightarrow> string" where
  \<comment> \<open>\<open>p.suffix\<close>\<close>
  "path_suffix p =
     (let name = path_name p; i = rfind (CHR ''.'') name
      in if 0 < i \<and> i < int (length name) - 1 then drop (nat i) name else [])"

definition path_parent :: "path \<Rightarrow> path" where
  \<comment> \<open>\<open>p.parent\<close>\<close>
  "path_parent p = (if path_parts p = [] then p else p\<lparr>path_parts := butlast (path_parts p)\<rparr>)"

datatype exc = KeyError | ValueError | Base64Error | JSONDecodeError | OSError

definition with_suffix :: "path \<Rightarrow> string \<Rightarrow> exc + path" where
  \<comment> \<open>\<open>p.with_suffix(suffix)\<close>; \<open>Inl ValueError\<close> where it raises\<close>
  "with_suffix p sfx =
     (if CHR ''/'' \<in> set sfx then Inl ValueError
      else if (sfx \<noteq> [] \<and> hd sfx \<noteq> CHR ''.'') \<or> sfx = ''.'' then Inl ValueError
      else let name = path_name p in
        if name = [] then Inl ValueError
        else let old_suffix = path_suffix p;
                 name' = (if old_suffix = [] then name @ sfx
                          else take (length name - length old_suffix) name @ sfx)
             in Inr (p\<lparr>path_parts := butlast (path_parts p) @ [name']\<rparr>))"

section \<open>The process and its surroundings\<close>

text \<open>
  What a run prints, posts and writes is kept in a record that every function takes and
  returns. A function that can end the process returns \<open>SysExit n\<close> where the source
  calls \<open>sys.exit(n)\<close> and \<open>Raise e\<close> where an exception escapes (nothing in the
  source catches the ones modelled here); the interpreter turns an escaped exception into
  exit status 1.
\<close>

datatype 'a result = Return 'a | SysExit nat | Raise exc

definition exit_status :: "'a result \<Rightarrow> nat" where
  "exit_status r = (case r of Return _ \<Rightarrow> 0 | SysExit n \<Rightarrow> n | Raise _ \<Rightarrow> 1)"

subsection \<open>The wire format\<close>

text \<open>
  The request body of lines 148 to 157: the content parts, and the two fields of
  \<open>imageConfig\<close> (the response modalities are constant).
\<close>

datatype req_part = TextPart string | InlinePart string string
  \<comment> \<open>\<open>{"text": t}\<close>, and \<open>{"inlineData": {"mimeType": m, "data": d}}\<close> as \<open>InlinePart m d\<close>\<close>

record request =
  req_url :: string
  req_parts :: "req_part list"
  req_aspectRatio :: string
  req_imageSize :: string

text \<open>
  The response, as far as the source reads it. A field that the JSON object may lack is
  an option. \<open>cand_content\<close> is \<open>None\<close> for a candidate without \<open>"content"\<close> and
  \<open>Some None\<close> for a content object without \<open>"parts"\<close>.
\<close>

record inline_data =
  inline_data_field :: "string option"
  inline_mimeType :: "string option"

record part =
  part_inlineData :: "inline_data option"
  part_text :: "string option"

record candidate =
  cand_content :: "part list option option"

record response =
  resp_candidates :: "candidate list option"

datatype http_result =
    Response response
  | HTTPError nat string
  | URLError string
  | Garbled
  \<comment> \<open>\<open>Garbled\<close>: a body that \<open>json.loads\<close> rejects\<close>

subsection \<open>The environment\<close>

datatype node = File bytes | Dir

text \<open>
  Everything a run reads from outside, and the library calls whose results the model does
  not compute: the environment variable, the file system (by the string of the path), the
  answer of the server to a request, the clock, the base64 codec (\<open>b64decode\<close> is
  \<open>None\<close> where it raises), \<open>json.dumps\<close> of a response, and whether creating a
  directory or writing a file succeeds.
\<close>

record world =
  environ_GEMINI_API_KEY :: "string option"
  fs :: "string \<Rightarrow> node option"
  urlopen :: "request \<Rightarrow> http_result"
  time_time :: int
  b64encode :: "bytes \<Rightarrow> string"
  b64decode :: "string \<Rightarrow> bytes option"
  json_dumps :: "response \<Rightarrow> string"
  mkdir_ok :: "string \<Rightarrow> bool"
  write_ok :: "string \<Rightarrow> bool"

subsection \<open>The effects\<close>

record io =
  stderr :: "string list"
  stdout :: "string list"
  posts :: "request list"
  mkdirs :: "string list"
  written :: "(string \<times> bytes) list"

definition io0 :: io where
  "io0 = \<lparr>stderr = [], stdout = [], posts = [], mkdirs = [], written = []\<rparr>"

definition eprint :: "string \<Rightarrow> io \<Rightarrow> io" where
  \<comment> \<open>\<open>print(line, file=sys.stderr)\<close>\<close>
  "eprint line s = s\<lparr>stderr := stderr s @ [line]\<rparr>"

definition oprint :: "string \<Rightarrow> io \<Rightarrow> io" where
  \<comment> \<open>\<open>print(line)\<close>\<close>
  "oprint line s = s\<lparr>stdout := stdout s @ [line]\<rparr>"

section \<open>The script\<close>

subsection \<open>Constants\<close>

datatype model_name = pro | flash

definition MODELS :: "model_name \<Rightarrow> string" where
  "MODELS m = (case m of pro \<Rightarrow> ''gemini-3-pro-image-preview'' | flash \<Rightarrow> ''gemini-2.5-flash-image'')"

definition model_key :: "model_name \<Rightarrow> string" where
  \<comment> \<open>the key itself, as \<open>args.model\<close> holds it\<close>
  "model_key m = (case m of pro \<Rightarrow> ''pro'' | flash \<Rightarrow> ''flash'')"

definition API_BASE :: string where
  "API_BASE = ''https://generativelanguage.googleapis.com/v1beta/models''"

definition PLACEHOLDER_KEY :: string where
  "PLACEHOLDER_KEY = ''YOUR_GEMINI_API_KEY_HERE''"

subsection \<open>\<open>get_api_key\<close> and \<open>load_image_as_base64\<close>\<close>

definition get_api_key :: "world \<Rightarrow> string" where
  "get_api_key w =
     (case environ_GEMINI_API_KEY w of
        Some env_key \<Rightarrow> if env_key \<noteq> [] then env_key else PLACEHOLDER_KEY
      | None \<Rightarrow> PLACEHOLDER_KEY)"

definition load_image_as_base64 :: "world \<Rightarrow> string \<Rightarrow> io \<Rightarrow> (string \<times> string) result \<times> io" where
  "load_image_as_base64 w image_path s =
     (case fs w (path_str (Path image_path)) of
        None \<Rightarrow> (SysExit 1, eprint (''Error: Reference image not found: '' @ image_path) s)
      | Some Dir \<Rightarrow> (Raise OSError, s)
      | Some (File image_bytes) \<Rightarrow>
          (Return (b64encode w image_bytes, fst (detect_image_format image_bytes)), s))"

subsection \<open>\<open>generate_image\<close>\<close>

text \<open>The loop of lines 137 to 145 over the reference images, appending to \<open>parts\<close>.\<close>

fun add_reference_images ::
  "world \<Rightarrow> string list \<Rightarrow> req_part list \<Rightarrow> io \<Rightarrow> req_part list result \<times> io" where
  "add_reference_images w [] parts s = (Return parts, s)"
| "add_reference_images w (img_path # rest) parts s =
     (case load_image_as_base64 w img_path s of
        (Return (base64_data, mime_type), s1) \<Rightarrow>
          add_reference_images w rest (parts @ [InlinePart mime_type base64_data])
            (eprint (''Added reference image: '' @ img_path) s1)
      | (SysExit n, s1) \<Rightarrow> (SysExit n, s1)
      | (Raise e, s1) \<Rightarrow> (Raise e, s1))"

text \<open>Lines 128 to 145: the parts of the request, the text prompt first.\<close>

definition build_parts ::
  "world \<Rightarrow> string \<Rightarrow> string list option \<Rightarrow> io \<Rightarrow> req_part list result \<times> io" where
  "build_parts w prompt reference_images s =
     (let parts = [TextPart prompt] in
      case reference_images of
        None \<Rightarrow> (Return parts, s)
      | Some refs \<Rightarrow>
          if refs = [] then (Return parts, s)
          else if length refs > 14 then
            add_reference_images w (take 14 refs) parts
              (eprint ''Warning: Maximum 14 reference images supported, using first 14'' s)
          else add_reference_images w refs parts s)"

text \<open>
  The first loop of lines 184 to 193 over the parts of the response: \<open>Return None\<close> when it
  ends without finding inline data.
\<close>

fun first_inline_image ::
  "world \<Rightarrow> part list \<Rightarrow> io \<Rightarrow> (bytes \<times> string) option result \<times> io" where
  "first_inline_image w [] s = (Return None, s)"
| "first_inline_image w (p # ps) s =
     (case part_inlineData p of
        None \<Rightarrow> first_inline_image w ps s
      | Some inline \<Rightarrow>
          (case inline_data_field inline of
             None \<Rightarrow> (Raise KeyError, s)
           | Some d \<Rightarrow>
               (case b64decode w d of
                  None \<Rightarrow> (Raise Base64Error, s)
                | Some image_bytes \<Rightarrow>
                    (let actual_mime = fst (detect_image_format image_bytes);
                         reported_mime =
                           (case inline_mimeType inline of Some m \<Rightarrow> m | None \<Rightarrow> ''image/png'')
                     in (Return (Some (image_bytes, actual_mime)),
                         if actual_mime \<noteq> reported_mime
                         then eprint (''Note: API reported '' @ reported_mime
                                      @ '', actual format is '' @ actual_mime) s
                         else s)))))"

text \<open>The second loop, lines 196 to 198.\<close>

fun print_text_parts :: "part list \<Rightarrow> io \<Rightarrow> io" where
  "print_text_parts [] s = s"
| "print_text_parts (p # ps) s =
     (case part_text p of
        None \<Rightarrow> print_text_parts ps s
      | Some t \<Rightarrow> print_text_parts ps (eprint (''Model response (no image): '' @ t) s))"

text \<open>Lines 175 to 201: from the parsed response to the image.\<close>

definition extract_image :: "world \<Rightarrow> response \<Rightarrow> io \<Rightarrow> (bytes \<times> string) result \<times> io" where
  "extract_image w res s =
     (let candidates = (case resp_candidates res of Some cs \<Rightarrow> cs | None \<Rightarrow> []) in
      if candidates = [] then
        (SysExit 1,
         eprint (''Response: '' @ json_dumps w res) (eprint ''Error: No candidates in response'' s))
      else
        (let parts = (case cand_content (hd candidates) of Some (Some ps) \<Rightarrow> ps | _ \<Rightarrow> []) in
         case first_inline_image w parts s of
           (Return (Some img), s1) \<Rightarrow> (Return img, s1)
         | (Return None, s1) \<Rightarrow>
             (SysExit 1, eprint ''Error: No image data in response'' (print_text_parts parts s1))
         | (SysExit n, s1) \<Rightarrow> (SysExit n, s1)
         | (Raise e, s1) \<Rightarrow> (Raise e, s1)))"

definition key_error_lines :: "string list" where
  \<comment> \<open>the four lines of lines 120 to 123\<close>
  "key_error_lines =
     [''Error: Gemini API key not found.'',
      ''Please set the GEMINI_API_KEY environment variable:'',
      ''  export GEMINI_API_KEY=your_key_here'',
      CHR 0x0A # ''Or edit scripts/generate_image.py and replace YOUR_GEMINI_API_KEY_HERE (not recommended).'']"

text \<open>
  Lines 159 to 201: the request is posted, and the answer is turned into the image or into
  the end of the process.
\<close>

definition call_api :: "world \<Rightarrow> request \<Rightarrow> io \<Rightarrow> (bytes \<times> string) result \<times> io" where
  "call_api w req s =
     (let s1 = s\<lparr>posts := posts s @ [req]\<rparr>
      in case urlopen w req of
           Response res \<Rightarrow> extract_image w res s1
         | HTTPError code error_body \<Rightarrow>
             (SysExit 1, eprint (''API Error ('' @ str_nat code @ ''): '' @ error_body) s1)
         | URLError reason \<Rightarrow> (SysExit 1, eprint (''Network Error: '' @ reason) s1)
         | Garbled \<Rightarrow> (Raise JSONDecodeError, s1))"

definition generate_image ::
  "world \<Rightarrow> string \<Rightarrow> string \<Rightarrow> string \<Rightarrow> string list option \<Rightarrow> string \<Rightarrow> string option
     \<Rightarrow> io \<Rightarrow> (bytes \<times> string) result \<times> io" where
  "generate_image w prompt aspect_ratio image_size reference_images model_id api_key s =
     (let api_key1 =
            (case api_key of
               None \<Rightarrow> get_api_key w
             | Some k \<Rightarrow> if k = [] then get_api_key w else k)
      in
      if api_key1 = PLACEHOLDER_KEY \<or> api_key1 = [] then
        (SysExit 1, fold eprint key_error_lines s)
      else
        (let url = API_BASE @ ''/'' @ model_id @ '':generateContent?key='' @ api_key1 in
         case build_parts w prompt reference_images s of
           (Return parts, s1) \<Rightarrow>
             call_api w \<lparr>req_url = url, req_parts = parts,
                         req_aspectRatio = aspect_ratio, req_imageSize = image_size\<rparr> s1
         | (SysExit n, s1) \<Rightarrow> (SysExit n, s1)
         | (Raise e, s1) \<Rightarrow> (Raise e, s1)))"

subsection \<open>\<open>main\<close>\<close>

text \<open>The parsed command line: \<open>None\<close> for an option that was not given.\<close>

record args =
  arg_prompt :: string
  arg_output :: "string option"
  arg_aspect :: string
  arg_size :: string
  arg_model :: model_name
  arg_key :: "string option"
  arg_reference_images :: "string list option"

definition slug_of :: "string \<Rightarrow> string" where
  \<comment> \<open>lines 294 and 295\<close>
  "slug_of prompt =
     (let slug = lower (strip (sub_non_word_space_hyphen prompt));
          slug = take 50 (sub_hyphen_space_runs slug)
      in if slug = [] then ''untitled'' else slug)"

definition auto_path :: "world \<Rightarrow> string \<Rightarrow> path" where
  \<comment> \<open>lines 291 to 298: the path made from the prompt and the clock\<close>
  "auto_path w prompt =
     (let slug = slug_of prompt;
          timestamp = time_time w;
          filename = slug @ ''-'' @ str_int timestamp
      in truediv (Path ''generated'') filename)"

definition requested_path :: "world \<Rightarrow> args \<Rightarrow> path" where
  \<comment> \<open>lines 288 to 298: the output path before the extension is forced;
      \<open>if args.output:\<close> is false for \<open>None\<close> and for the empty string\<close>
  "requested_path w a =
     (case arg_output a of
        None \<Rightarrow> auto_path w (arg_prompt a)
      | Some out \<Rightarrow> if out \<noteq> [] then Path out else auto_path w (arg_prompt a))"

definition save_image :: "world \<Rightarrow> args \<Rightarrow> bytes \<Rightarrow> string \<Rightarrow> io \<Rightarrow> unit result \<times> io" where
  \<comment> \<open>lines 287 to 316: what \<open>main\<close> does once \<open>generate_image\<close> has returned\<close>
  "save_image w a image_bytes mime_type s =
     (let correct_ext = get_extension mime_type in
      case with_suffix (requested_path w a) correct_ext of
        Inl e \<Rightarrow> (Raise e, s)
      | Inr output_path \<Rightarrow>
          (let s1 = (if arg_output a \<noteq> Some (path_str output_path)
                     then eprint (''Note: Using '' @ correct_ext @ '' extension (actual format: ''
                                  @ mime_type @ '')'') s
                     else s);
               parent = path_str (path_parent output_path)
           in if \<not> mkdir_ok w parent then (Raise OSError, s1)
              else
                (let s2 = s1\<lparr>mkdirs := mkdirs s1 @ [parent]\<rparr> in
                 if \<not> write_ok w (path_str output_path) then (Raise OSError, s2)
                 else
                   (let s3 = s2\<lparr>written := written s2 @ [(path_str output_path, image_bytes)]\<rparr>;
                        s4 = eprint (''Image saved: '' @ path_str output_path) s3
                    in (Return (), oprint (path_str output_path) s4)))))"

definition banner :: "args \<Rightarrow> io \<Rightarrow> io" where
  \<comment> \<open>lines 272 to 276\<close>
  "banner a s =
     (let model_id = MODELS (arg_model a);
          s1 = eprint (''Generating image with '' @ model_id @ ''...'') s;
          s2 = eprint (''Prompt: '' @ arg_prompt a) s1;
          s3 = eprint (''Aspect: '' @ arg_aspect a @ '', Size: '' @ arg_size a
                       @ '', Model: '' @ model_key (arg_model a)) s2
      in case arg_reference_images a of
           None \<Rightarrow> s3
         | Some refs \<Rightarrow>
             if refs = [] then s3
             else eprint (''Reference images: '' @ str_nat (length refs)) s3)"

definition main :: "world \<Rightarrow> args \<Rightarrow> io \<Rightarrow> unit result \<times> io" where
  "main w a s =
     (let model_id = MODELS (arg_model a) in
      case generate_image w (arg_prompt a) (arg_aspect a) (arg_size a)
             (arg_reference_images a) model_id (arg_key a) (banner a s) of
        (Return (image_bytes, mime_type), s1) \<Rightarrow> save_image w a image_bytes mime_type s1
      | (SysExit n, s1) \<Rightarrow> (SysExit n, s1)
      | (Raise e, s1) \<Rightarrow> (Raise e, s1))"

text \<open>A run of the script: \<open>main\<close> from the state in which nothing has happened yet.\<close>

definition run :: "world \<Rightarrow> args \<Rightarrow> unit result \<times> io" where
  "run w a = main w a io0"

text \<open>
  The order in which the specification resolves the API key: a non-empty explicit key, then
  a non-empty environment variable, then the placeholder.
\<close>

definition spec_resolved_key :: "string option \<Rightarrow> string option \<Rightarrow> string" where
  "spec_resolved_key explicit env =
     (case explicit of
        Some k \<Rightarrow> if k \<noteq> [] then k
                  else (case env of Some e \<Rightarrow> if e \<noteq> [] then e else PLACEHOLDER_KEY
                        | None \<Rightarrow> PLACEHOLDER_KEY)
      | None \<Rightarrow> (case env of Some e \<Rightarrow> if e \<noteq> [] then e else PLACEHOLDER_KEY
                 | None \<Rightarrow> PLACEHOLDER_KEY))"

text \<open>\<open>only_stderr s s'\<close>: from \<open>s\<close> to \<open>s'\<close> only lines on the error stream were added.\<close>

definition only_stderr :: "io \<Rightarrow> io \<Rightarrow> bool" where
  "only_stderr s s' = (\<exists>ls. s' = s\<lparr>stderr := stderr s @ ls\<rparr>)"

text \<open>The request that \<open>generate_image\<close> builds for a command line, given the parts.\<close>

definition request_of :: "world \<Rightarrow> args \<Rightarrow> req_part list \<Rightarrow> request" where
  "request_of w a parts =
     \<lparr>req_url = API_BASE @ ''/'' @ MODELS (arg_model a) @ '':generateContent?key=''
                 @ spec_resolved_key (arg_key a) (environ_GEMINI_API_KEY w),
      req_parts = parts, req_aspectRatio = arg_aspect a, req_imageSize = arg_size a\<rparr>"

section \<open>Example inputs\<close>

text \<open>
  Concrete surroundings for the examples below: an eight-byte PNG and a four-byte JPEG
  with their base64 forms, a response with one text part and one image part, a file system
  that holds \<open>ref.png\<close> only, and a command line with the prompt of the specification.
\<close>

definition png_image :: bytes where
  "png_image = PNG_SIG"

definition jpeg_image :: bytes where
  "jpeg_image = [0xFF, 0xD8, 0xFF, 0xE0]"

definition example_response :: "string \<Rightarrow> string option \<Rightarrow> response" where
  "example_response d m =
     \<lparr>resp_candidates = Some
        [\<lparr>cand_content = Some (Some
            [\<lparr>part_inlineData = None, part_text = Some ''Here is your image.''\<rparr>,
             \<lparr>part_inlineData = Some \<lparr>inline_data_field = Some d, inline_mimeType = m\<rparr>,
              part_text = None\<rparr>])\<rparr>]\<rparr>"

definition example_world :: "string option \<Rightarrow> (string \<Rightarrow> node option) \<Rightarrow> http_result \<Rightarrow> world" where
  "example_world env files answer =
     \<lparr>environ_GEMINI_API_KEY = env,
      fs = files,
      urlopen = (\<lambda>req. answer),
      time_time = 1700000000,
      b64encode = (\<lambda>b. if b = png_image then ''iVBORw0KGgo='' else ''/9j/4A==''),
      b64decode = (\<lambda>d. if d = ''iVBORw0KGgo='' then Some png_image
                        else if d = ''/9j/4A=='' then Some jpeg_image else None),
      json_dumps = (\<lambda>r. ''{}''),
      mkdir_ok = (\<lambda>p. True),
      write_ok = (\<lambda>p. True)\<rparr>"

definition example_files :: "string \<Rightarrow> node option" where
  "example_files p = (if p = ''ref.png'' then Some (File png_image) else None)"

definition example_args :: "string option \<Rightarrow> string option \<Rightarrow> string list option \<Rightarrow> args" where
  "example_args out k refs =
     \<lparr>arg_prompt = ''A cute robot!'', arg_output = out, arg_aspect = ''1:1'', arg_size = ''2K'',
      arg_model = pro, arg_key = k, arg_reference_images = refs\<rparr>"

text \<open>
  What parsing guarantees of a path object: a root that is empty, one slash or two, and
  components that are not empty, not a single dot and free of slashes.
\<close>

definition valid_part :: "string \<Rightarrow> bool" where
  "valid_part x = (x \<noteq> [] \<and> x \<noteq> ''.'' \<and> CHR ''/'' \<notin> set x)"

definition valid_path :: "path \<Rightarrow> bool" where
  "valid_path p = (path_root p \<in> {[], ''/'', ''//''} \<and> list_all valid_part (path_parts p))"

text \<open>The suffixes that \<open>get_extension\<close> can return: a dot, then at least one character, none of them a dot or a slash.\<close>

definition plain_ext :: "string \<Rightarrow> bool" where
  "plain_ext e = (\<exists>r. e = CHR ''.'' # r \<and> r \<noteq> [] \<and> CHR ''.'' \<notin> set r \<and> CHR ''/'' \<notin> set r)"

text \<open>
  The request part that a reference image path stands for: the sniffed MIME type and the
  base64 form of the file's bytes, or nothing when the path is not a readable file.
\<close>

definition reference_part :: "world \<Rightarrow> string \<Rightarrow> req_part option" where
  "reference_part w p =
     (case fs w (path_str (Path p)) of
        Some (File b) \<Rightarrow> Some (InlinePart (fst (detect_image_format b)) (b64encode w b))
      | _ \<Rightarrow> None)"

definition added_line :: "string \<Rightarrow> string" where
  "added_line p = ''Added reference image: '' @ p"

definition warning_14 :: string where
  "warning_14 = ''Warning: Maximum 14 reference images supported, using first 14''"

text \<open>Fifteen reference paths: fourteen times the file that exists, then one that does not.\<close>

definition fifteen_refs :: "string list" where
  "fifteen_refs = replicate 14 ''ref.png'' @ [''missing.png'']"






section \<open>The format sniffer\<close>

lemma prefix_iff_take: "prefix xs ys \<longleftrightarrow> take (length xs) ys = xs"
  by (metis append_eq_conv_conj prefix_def append_take_drop_id)

lemma take_Cons_first: "take n b = x # xs \<Longrightarrow> take 1 b = [x]"
  by (cases b; cases n) auto

lemma signature_first_byte:
  "take 8 b = PNG_SIG \<Longrightarrow> take 1 b = [0x89]"
  "take 2 b = JPEG_SIG \<Longrightarrow> take 1 b = [0xFF]"
  "take 4 b = RIFF \<Longrightarrow> take 1 b = [0x52]"
  "take 6 b = GIF87a \<Longrightarrow> take 1 b = [0x47]"
  "take 6 b = GIF89a \<Longrightarrow> take 1 b = [0x47]"
  unfolding PNG_SIG_def JPEG_SIG_def RIFF_def GIF87a_def GIF89a_def
  by (erule take_Cons_first)+

lemma signature_lengths:
  "length PNG_SIG = 8" "length JPEG_SIG = 2" "length RIFF = 4" "length WEBP = 4"
  "length GIF87a = 6" "length GIF89a = 6"
  by (simp_all add: PNG_SIG_def JPEG_SIG_def RIFF_def WEBP_def GIF87a_def GIF89a_def)

text \<open>
  C2. For every byte buffer, \<open>detect_image_format\<close> returns the PNG pair when the buffer
  starts with the 8-byte PNG signature, the JPEG pair when it starts with \<open>FF D8\<close>, the
  WEBP pair when it starts with \<open>RIFF\<close> and has \<open>WEBP\<close> at offset 8, the GIF pair when
  it starts with \<open>GIF87a\<close> or \<open>GIF89a\<close>, and the PNG pair for every other buffer,
  short ones included. The function is total and takes and returns values only, so it
  neither raises nor has an effect.
\<close>

theorem detect_image_format_cases:
  "(prefix PNG_SIG b \<longrightarrow> detect_image_format b = (''image/png'', ''.png'')) \<and>
   (prefix JPEG_SIG b \<longrightarrow> detect_image_format b = (''image/jpeg'', ''.jpg'')) \<and>
   (prefix RIFF b \<and> prefix WEBP (drop 8 b) \<longrightarrow>
      detect_image_format b = (''image/webp'', ''.webp'')) \<and>
   (prefix GIF87a b \<or> prefix GIF89a b \<longrightarrow> detect_image_format b = (''image/gif'', ''.gif'')) \<and>
   (\<not> prefix PNG_SIG b \<and> \<not> prefix JPEG_SIG b \<and> \<not> (prefix RIFF b \<and> prefix WEBP (drop 8 b)) \<and>
    \<not> prefix GIF87a b \<and> \<not> prefix GIF89a b \<longrightarrow>
      detect_image_format b = (''image/png'', ''.png''))"
  unfolding prefix_iff_take signature_lengths detect_image_format_def
  by (auto dest!: signature_first_byte)

theorem detect_image_format_cases_witness:
  "detect_image_format (PNG_SIG @ [0]) = (''image/png'', ''.png'') \<and>
   detect_image_format (JPEG_SIG @ [0xFF, 0xE0]) = (''image/jpeg'', ''.jpg'') \<and>
   detect_image_format (RIFF @ [0x24, 0, 0, 0] @ WEBP @ [0x56]) = (''image/webp'', ''.webp'') \<and>
   detect_image_format (GIF89a @ [1, 0]) = (''image/gif'', ''.gif'') \<and>
   detect_image_format [0x42, 0x4D] = (''image/png'', ''.png'')"
proof -
  have webp: "prefix WEBP (drop 8 (RIFF @ [0x24, 0, 0, 0] @ WEBP @ [0x56]))"
    by (simp add: RIFF_def)
  have other: "\<not> prefix PNG_SIG [0x42, 0x4D :: byte]" "\<not> prefix JPEG_SIG [0x42, 0x4D :: byte]"
    "\<not> prefix RIFF [0x42, 0x4D :: byte]" "\<not> prefix GIF87a [0x42, 0x4D :: byte]"
    "\<not> prefix GIF89a [0x42, 0x4D :: byte]"
    by (simp_all add: PNG_SIG_def JPEG_SIG_def RIFF_def GIF87a_def GIF89a_def)
  show ?thesis
    using detect_image_format_cases [of "PNG_SIG @ [0]"]
      detect_image_format_cases [of "JPEG_SIG @ [0xFF, 0xE0]"]
      detect_image_format_cases [of "RIFF @ [0x24, 0, 0, 0] @ WEBP @ [0x56]"]
      detect_image_format_cases [of "GIF89a @ [1, 0]"]
      detect_image_format_cases [of "[0x42, 0x4D]"]
      webp other
    by simp
qed

section \<open>The two format tables\<close>

lemma detect_image_format_range:
  "detect_image_format b \<in>
     {(''image/png'', ''.png''), (''image/jpeg'', ''.jpg''),
      (''image/webp'', ''.webp''), (''image/gif'', ''.gif'')}"
  by (simp add: detect_image_format_def)

lemma get_extension_simps:
  "get_extension ''image/png'' = ''.png''"
  "get_extension ''image/jpeg'' = ''.jpg''"
  "get_extension ''image/webp'' = ''.webp''"
  "get_extension ''image/gif'' = ''.gif''"
  by (simp_all add: get_extension_def extensions_def)

lemma get_extension_detect:
  "get_extension (fst (detect_image_format b)) = snd (detect_image_format b)"
  using detect_image_format_range [of b] by (auto simp: get_extension_simps)

section \<open>Effects of the steps\<close>

lemma eprint_simps [simp]:
  "stderr (eprint l s) = stderr s @ [l]"
  "stdout (eprint l s) = stdout s"
  "posts (eprint l s) = posts s"
  "mkdirs (eprint l s) = mkdirs s"
  "written (eprint l s) = written s"
  by (simp_all add: eprint_def)

lemma oprint_simps [simp]:
  "stderr (oprint l s) = stderr s"
  "stdout (oprint l s) = stdout s @ [l]"
  "posts (oprint l s) = posts s"
  "mkdirs (oprint l s) = mkdirs s"
  "written (oprint l s) = written s"
  by (simp_all add: oprint_def)

lemma fold_eprint:
  "stderr (fold eprint ls s) = stderr s @ ls"
  "stdout (fold eprint ls s) = stdout s"
  "posts (fold eprint ls s) = posts s"
  "mkdirs (fold eprint ls s) = mkdirs s"
  "written (fold eprint ls s) = written s"
  by (induction ls arbitrary: s) simp_all

lemma only_stderr_refl [simp]: "only_stderr s s"
  by (auto simp: only_stderr_def intro: exI [of _ "[]"])

lemma only_stderr_trans: "only_stderr s s1 \<Longrightarrow> only_stderr s1 s2 \<Longrightarrow> only_stderr s s2"
  by (auto simp: only_stderr_def)

lemma only_stderr_eprint [simp]: "only_stderr s (eprint l s)"
  by (auto simp: only_stderr_def eprint_def)

lemma only_stderr_eprint_trans [simp]: "only_stderr s s1 \<Longrightarrow> only_stderr s (eprint l s1)"
  by (rule only_stderr_trans [OF _ only_stderr_eprint])

lemma only_stderr_fold_eprint [simp]: "only_stderr s (fold eprint ls s)"
proof (induction ls arbitrary: s)
  case Nil
  show ?case by simp
next
  case (Cons l ls)
  show ?case
    using only_stderr_trans [OF only_stderr_eprint Cons [of "eprint l s"]] by simp
qed

lemma only_stderrD:
  "only_stderr s s' \<Longrightarrow>
     stdout s' = stdout s \<and> posts s' = posts s \<and> mkdirs s' = mkdirs s \<and> written s' = written s
     \<and> (\<exists>ls. stderr s' = stderr s @ ls)"
  by (auto simp: only_stderr_def)

lemma banner_only_stderr [simp]: "only_stderr s (banner a s)"
  by (simp add: banner_def Let_def split: option.splits)

lemma load_only_stderr:
  "load_image_as_base64 w p s = (r, s') \<Longrightarrow> only_stderr s s'"
  by (auto simp: load_image_as_base64_def split: option.splits node.splits)

lemma add_reference_images_only_stderr:
  "add_reference_images w refs parts s = (r, s') \<Longrightarrow> only_stderr s s'"
proof (induction refs arbitrary: parts s)
  case Nil
  then show ?case by simp
next
  case (Cons p refs)
  obtain r1 s1 where l: "load_image_as_base64 w p s = (r1, s1)" by fastforce
  note e = load_only_stderr [OF l]
  show ?case
  proof (cases r1)
    case (Return x)
    obtain d m where x: "x = (d, m)" by fastforce
    from Cons.prems l Return x
    have "add_reference_images w refs (parts @ [InlinePart m d])
            (eprint (''Added reference image: '' @ p) s1) = (r, s')"
      by simp
    from Cons.IH [OF this] e show ?thesis
      by (blast intro: only_stderr_trans only_stderr_eprint_trans)
  next
    case (SysExit n)
    with Cons.prems l e show ?thesis by auto
  next
    case (Raise x)
    with Cons.prems l e show ?thesis by auto
  qed
qed

lemma build_parts_only_stderr:
  "build_parts w prompt refs s = (r, s') \<Longrightarrow> only_stderr s s'"
  by (auto simp: build_parts_def Let_def split: option.splits if_splits
        dest!: add_reference_images_only_stderr
        elim: only_stderr_trans [OF only_stderr_eprint])

lemma first_inline_image_only_stderr:
  "first_inline_image w ps s = (r, s') \<Longrightarrow> only_stderr s s'"
  by (induction ps arbitrary: s) (auto simp: Let_def split: option.splits if_splits)

lemma print_text_parts_only_stderr [simp]: "only_stderr s (print_text_parts ps s)"
proof (induction ps arbitrary: s)
  case Nil
  show ?case by simp
next
  case (Cons p ps)
  show ?case
    using Cons [of s]
      only_stderr_trans [OF only_stderr_eprint Cons [of "eprint (''Model response (no image): '' @ t) s" for t]]
    by (simp split: option.splits)
qed

lemma only_stderr_print_text_parts_trans [simp]:
  "only_stderr s s1 \<Longrightarrow> only_stderr s (print_text_parts ps s1)"
  by (rule only_stderr_trans [OF _ print_text_parts_only_stderr])

lemma extract_image_only_stderr:
  "extract_image w res s = (r, s') \<Longrightarrow> only_stderr s s'"
  unfolding extract_image_def Let_def
  by (auto split: if_splits prod.splits result.splits option.splits
        dest!: first_inline_image_only_stderr)

lemma call_api_effects:
  assumes "call_api w req s = (r, s')"
  shows "only_stderr (s\<lparr>posts := posts s @ [req]\<rparr>) s'"
proof (cases "urlopen w req")
  case (Response res)
  with assms have "extract_image w res (s\<lparr>posts := posts s @ [req]\<rparr>) = (r, s')"
    by (simp add: call_api_def)
  then show ?thesis by (rule extract_image_only_stderr)
next
  case (HTTPError code body)
  with assms show ?thesis by (auto simp: call_api_def)
next
  case (URLError reason)
  with assms show ?thesis by (auto simp: call_api_def)
next
  case Garbled
  with assms show ?thesis by (auto simp: call_api_def)
qed

lemma generate_image_effects:
  assumes "generate_image w prompt ar sz refs mid k s = (r, s')"
  shows "stdout s' = stdout s \<and> mkdirs s' = mkdirs s \<and> written s' = written s
         \<and> (\<exists>ls. stderr s' = stderr s @ ls)
         \<and> (posts s' = posts s \<or> (\<exists>req. posts s' = posts s @ [req]))"
proof -
  have post: "only_stderr (s1\<lparr>posts := posts s1 @ [req]\<rparr>) s2 \<Longrightarrow> only_stderr s s1 \<Longrightarrow>
      stdout s2 = stdout s \<and> mkdirs s2 = mkdirs s \<and> written s2 = written s
         \<and> (\<exists>ls. stderr s2 = stderr s @ ls) \<and> posts s2 = posts s @ [req]" for s1 s2 req
    by (auto simp: only_stderr_def)
  obtain r0 s0 where bp: "build_parts w prompt refs s = (r0, s0)" by fastforce
  note b = build_parts_only_stderr [OF bp]
  show ?thesis
  proof (cases "r = SysExit 1 \<and> s' = fold eprint key_error_lines s")
    case True
    then show ?thesis by (simp add: fold_eprint)
  next
    case False
    show ?thesis
    proof (cases r0)
      case (Return parts)
      with False assms bp obtain req where "call_api w req s0 = (r, s')"
        unfolding generate_image_def Let_def by (auto split: if_splits)
      from post [OF call_api_effects [OF this] b] show ?thesis by blast
    next
      case (SysExit n)
      with False assms bp have "s' = s0"
        unfolding generate_image_def Let_def by (auto split: if_splits)
      with only_stderrD [OF b] show ?thesis by simp
    next
      case (Raise e)
      with False assms bp have "s' = s0"
        unfolding generate_image_def Let_def by (auto split: if_splits)
      with only_stderrD [OF b] show ?thesis by simp
    qed
  qed
qed

section \<open>The API key\<close>

lemma PLACEHOLDER_KEY_nonempty [simp]: "PLACEHOLDER_KEY \<noteq> []"
  by (simp add: PLACEHOLDER_KEY_def)

lemma spec_resolved_key_nonempty [simp]: "spec_resolved_key k e \<noteq> []"
  by (simp add: spec_resolved_key_def split: option.splits)

lemma resolve_key:
  "(case k of None \<Rightarrow> get_api_key w | Some x \<Rightarrow> if x = [] then get_api_key w else x)
     = spec_resolved_key k (environ_GEMINI_API_KEY w)"
  by (simp add: spec_resolved_key_def get_api_key_def split: option.splits)

lemma generate_image_bad_key:
  "spec_resolved_key k (environ_GEMINI_API_KEY w) = PLACEHOLDER_KEY \<Longrightarrow>
     generate_image w prompt ar sz refs mid k s = (SysExit 1, fold eprint key_error_lines s)"
  by (simp add: generate_image_def resolve_key)

lemma generate_image_good_key:
  "spec_resolved_key k (environ_GEMINI_API_KEY w) \<noteq> PLACEHOLDER_KEY \<Longrightarrow>
     generate_image w prompt ar sz refs mid k s =
       (case build_parts w prompt refs s of
          (Return parts, s1) \<Rightarrow>
            call_api w \<lparr>req_url = API_BASE @ ''/'' @ mid @ '':generateContent?key=''
                                   @ spec_resolved_key k (environ_GEMINI_API_KEY w),
                        req_parts = parts, req_aspectRatio = ar, req_imageSize = sz\<rparr> s1
        | (SysExit n, s1) \<Rightarrow> (SysExit n, s1)
        | (Raise e, s1) \<Rightarrow> (Raise e, s1))"
  by (simp add: generate_image_def resolve_key Let_def split: prod.splits result.splits)

lemma save_image_effects:
  assumes "save_image w a b m s = (r, s')"
  shows "posts s' = posts s"
    and "written s' = written s \<or> (\<exists>f. written s' = written s @ [(f, b)])"
    and "\<exists>ls. stderr s' = stderr s @ ls"
    and "r \<noteq> Return () \<Longrightarrow> stdout s' = stdout s \<and> written s' = written s"
    and "\<And>n. r \<noteq> SysExit n"
  using assms unfolding save_image_def Let_def
  by (auto split: sum.splits if_splits)

lemma run_cases [case_names bad_key refs_exit refs_raise called]:
  obtains
    (bad_key) "spec_resolved_key (arg_key a) (environ_GEMINI_API_KEY w) = PLACEHOLDER_KEY"
      "run w a = (SysExit 1, fold eprint key_error_lines (banner a io0))"
  | (refs_exit) n s1 where
      "spec_resolved_key (arg_key a) (environ_GEMINI_API_KEY w) \<noteq> PLACEHOLDER_KEY"
      "build_parts w (arg_prompt a) (arg_reference_images a) (banner a io0) = (SysExit n, s1)"
      "run w a = (SysExit n, s1)"
  | (refs_raise) e s1 where
      "spec_resolved_key (arg_key a) (environ_GEMINI_API_KEY w) \<noteq> PLACEHOLDER_KEY"
      "build_parts w (arg_prompt a) (arg_reference_images a) (banner a io0) = (Raise e, s1)"
      "run w a = (Raise e, s1)"
  | (called) parts s1 r2 s2 where
      "spec_resolved_key (arg_key a) (environ_GEMINI_API_KEY w) \<noteq> PLACEHOLDER_KEY"
      "build_parts w (arg_prompt a) (arg_reference_images a) (banner a io0) = (Return parts, s1)"
      "call_api w (request_of w a parts) s1 = (r2, s2)"
      "run w a =
         (case r2 of
            Return (image_bytes, mime_type) \<Rightarrow> save_image w a image_bytes mime_type s2
          | SysExit n \<Rightarrow> (SysExit n, s2)
          | Raise e \<Rightarrow> (Raise e, s2))"
proof (cases "spec_resolved_key (arg_key a) (environ_GEMINI_API_KEY w) = PLACEHOLDER_KEY")
  case True
  then have "run w a = (SysExit 1, fold eprint key_error_lines (banner a io0))"
    by (simp add: run_def main_def generate_image_bad_key)
  with True show ?thesis by (rule bad_key)
next
  case False
  note g = generate_image_good_key [OF False]
  obtain r1 s1 where bp:
    "build_parts w (arg_prompt a) (arg_reference_images a) (banner a io0) = (r1, s1)"
    by fastforce
  show ?thesis
  proof (cases r1)
    case (Return parts)
    obtain r2 s2 where c: "call_api w (request_of w a parts) s1 = (r2, s2)" by fastforce
    have "run w a =
         (case r2 of
            Return (image_bytes, mime_type) \<Rightarrow> save_image w a image_bytes mime_type s2
          | SysExit n \<Rightarrow> (SysExit n, s2)
          | Raise e \<Rightarrow> (Raise e, s2))"
      using bp Return c
      by (simp add: run_def main_def g request_of_def split: result.splits)
    with False bp Return c show ?thesis by (blast intro: called)
  next
    case (SysExit n)
    with bp have "run w a = (SysExit n, s1)"
      by (simp add: run_def main_def g)
    with False bp SysExit show ?thesis by (blast intro: refs_exit)
  next
    case (Raise e)
    with bp have "run w a = (Raise e, s1)"
      by (simp add: run_def main_def g)
    with False bp Raise show ?thesis by (blast intro: refs_raise)
  qed
qed

lemma io0_simps [simp]:
  "stderr io0 = []" "stdout io0 = []" "posts io0 = []" "mkdirs io0 = []" "written io0 = []"
  by (simp_all add: io0_def)

lemma banner_fields [simp]:
  "stdout (banner a s) = stdout s" "posts (banner a s) = posts s"
  "mkdirs (banner a s) = mkdirs s" "written (banner a s) = written s"
  using only_stderrD [OF banner_only_stderr [of s a]] by simp_all

lemma called_posts:
  assumes "build_parts w p refs s = (r1, s1)" "call_api w req s1 = (r2, s2)"
  shows "posts s2 = posts s @ [req]" "stdout s2 = stdout s" "written s2 = written s"
    "\<exists>ls. stderr s2 = stderr s1 @ ls"
  using only_stderrD [OF build_parts_only_stderr [OF assms(1)]]
    only_stderrD [OF call_api_effects [OF assms(2)]]
  by auto

lemma run_posts_called:
  assumes "spec_resolved_key (arg_key a) (environ_GEMINI_API_KEY w) \<noteq> PLACEHOLDER_KEY"
    and "build_parts w (arg_prompt a) (arg_reference_images a) (banner a io0) = (Return parts, s1)"
  shows "posts (snd (run w a)) = [request_of w a parts]"
proof -
  note g = generate_image_good_key [OF assms(1)]
  obtain r2 s2 where c: "call_api w (request_of w a parts) s1 = (r2, s2)" by fastforce
  note p = called_posts [OF assms(2) c]
  have r: "run w a =
         (case r2 of
            Return (image_bytes, mime_type) \<Rightarrow> save_image w a image_bytes mime_type s2
          | SysExit n \<Rightarrow> (SysExit n, s2)
          | Raise e \<Rightarrow> (Raise e, s2))"
    using assms(2) c by (simp add: run_def main_def g request_of_def split: result.splits)
  show ?thesis
  proof (cases r2)
    case (Return x)
    obtain b m where x: "x = (b, m)" by fastforce
    obtain r3 s3 where sv: "save_image w a b m s2 = (r3, s3)" by fastforce
    from save_image_effects(1) [OF sv] r Return x sv p show ?thesis by simp
  next
    case (SysExit n)
    with r p show ?thesis by simp
  next
    case (Raise e)
    with r p show ?thesis by simp
  qed
qed

lemma posts_run_cases:
  "posts (snd (run w a)) = [] \<or>
   (\<exists>parts s1. spec_resolved_key (arg_key a) (environ_GEMINI_API_KEY w) \<noteq> PLACEHOLDER_KEY \<and>
      build_parts w (arg_prompt a) (arg_reference_images a) (banner a io0) = (Return parts, s1) \<and>
      posts (snd (run w a)) = [request_of w a parts])"
proof (cases rule: run_cases [of a w])
  case bad_key
  then show ?thesis by (simp add: fold_eprint)
next
  case (refs_exit n s1)
  with only_stderrD [OF build_parts_only_stderr [OF refs_exit(2)]] show ?thesis by simp
next
  case (refs_raise e s1)
  with only_stderrD [OF build_parts_only_stderr [OF refs_raise(2)]] show ?thesis by simp
next
  case (called parts s1 r2 s2)
  with run_posts_called [OF called(1,2)] show ?thesis by blast
qed


lemma sniff_examples:
  "detect_image_format png_image = (''image/png'', ''.png'')"
  "detect_image_format jpeg_image = (''image/jpeg'', ''.jpg'')"
  by (simp_all add: detect_image_format_def png_image_def jpeg_image_def PNG_SIG_def JPEG_SIG_def)

lemma path_examples:
  "path_str (Path ''ref.png'') = ''ref.png''"
  "with_suffix (Path ''out.png'') ''.jpg'' = Inr \<lparr>path_root = [], path_parts = [''out.jpg'']\<rparr>"
  by (simp_all add: Path_def splitroot_def path_str_def with_suffix_def path_name_def
        path_suffix_def Let_def)

lemma example_world_simps [simp]:
  "environ_GEMINI_API_KEY (example_world e f ans) = e"
  "fs (example_world e f ans) = f"
  "urlopen (example_world e f ans) req = ans"
  "time_time (example_world e f ans) = 1700000000"
  "b64decode (example_world e f ans) ''/9j/4A=='' = Some jpeg_image"
  "b64decode (example_world e f ans) ''iVBORw0KGgo='' = Some png_image"
  "b64encode (example_world e f ans) png_image = ''iVBORw0KGgo=''"
  "json_dumps (example_world e f ans) r = ''{}''"
  "mkdir_ok (example_world e f ans) p"
  "write_ok (example_world e f ans) p"
  by (simp_all add: example_world_def)

lemma example_args_simps [simp]:
  "arg_prompt (example_args out k refs) = ''A cute robot!''"
  "arg_output (example_args out k refs) = out"
  "arg_aspect (example_args out k refs) = ''1:1''"
  "arg_size (example_args out k refs) = ''2K''"
  "arg_model (example_args out k refs) = pro"
  "arg_key (example_args out k refs) = k"
  "arg_reference_images (example_args out k refs) = refs"
  by (simp_all add: example_args_def)

lemma build_parts_no_refs [simp]: "build_parts w p None s = (Return [TextPart p], s)"
  by (simp add: build_parts_def)

section \<open>Properties of paths\<close>

lemma split_sep_nonempty [simp]: "split_sep s \<noteq> []"
  by (induction s) (auto split: list.splits)

lemma split_sep_no_sep: "x \<in> set (split_sep s) \<Longrightarrow> CHR ''/'' \<notin> set x"
  by (induction s arbitrary: x) (auto split: list.splits if_splits)

lemma split_sep_single: "CHR ''/'' \<notin> set x \<Longrightarrow> split_sep x = [x]"
  by (induction x) auto

lemma split_sep_append:
  "CHR ''/'' \<notin> set x \<Longrightarrow> split_sep (x @ CHR ''/'' # rest) = x # split_sep rest"
  by (induction x) auto

lemma split_sep_join:
  "xs \<noteq> [] \<Longrightarrow> \<forall>x \<in> set xs. CHR ''/'' \<notin> set x \<Longrightarrow> split_sep (join ''/'' xs) = xs"
proof (induction "''/''" xs rule: join.induct)
  case 1
  then show ?case by simp
next
  case (2 x)
  then show ?case by (simp add: split_sep_single)
next
  case (3 x y ys)
  then show ?case by (simp add: split_sep_append)
qed

lemma splitroot_root: "fst (splitroot s) \<in> {[], ''/'', ''//''}"
  by (simp add: splitroot_def Let_def)

lemma Path_valid [simp]: "valid_path (Path s)"
  using splitroot_root [of s]
  by (auto simp: valid_path_def Path_def valid_part_def list_all_iff split: prod.splits
        dest: split_sep_no_sep)

lemma join_hd:
  "xs \<noteq> [] \<Longrightarrow> hd xs \<noteq> [] \<Longrightarrow> join sep xs \<noteq> [] \<and> hd (join sep xs) = hd (hd xs)"
  by (induction sep xs rule: join.induct) auto

lemma splitroot_relative:
  "s = [] \<or> hd s \<noteq> CHR ''/'' \<Longrightarrow> splitroot s = ([], s)"
  by (auto simp: splitroot_def)

lemma valid_join_start:
  "list_all valid_part ps \<Longrightarrow> join ''/'' ps = [] \<or> hd (join ''/'' ps) \<noteq> CHR ''/''"
proof (cases ps)
  case Nil
  then show ?thesis by simp
next
  case (Cons x xs)
  assume "list_all valid_part ps"
  with Cons have x: "x \<noteq> []" "CHR ''/'' \<notin> set x" by (simp_all add: valid_part_def)
  then have "hd x \<noteq> CHR ''/''" by (cases x) auto
  with join_hd [of ps "''/''"] Cons x show ?thesis by simp
qed

lemma dropWhile_start: "s = [] \<or> \<not> P (hd s) \<Longrightarrow> dropWhile P s = s"
  by (cases s) auto

lemma splitroot_one:
  "t = [] \<or> hd t \<noteq> CHR ''/'' \<Longrightarrow> splitroot (CHR ''/'' # t) = (''/'', t)"
  by (simp add: splitroot_def Let_def dropWhile_start)

lemma splitroot_two:
  "t = [] \<or> hd t \<noteq> CHR ''/'' \<Longrightarrow> splitroot (CHR ''/'' # CHR ''/'' # t) = (''//'', t)"
  by (simp add: splitroot_def Let_def dropWhile_start)

lemma filter_valid_parts:
  "list_all valid_part ps \<Longrightarrow> filter (\<lambda>x. x \<noteq> [] \<and> x \<noteq> ''.'') ps = ps"
  by (induction ps) (auto simp: valid_part_def)

lemma parts_of_join:
  assumes "list_all valid_part ps"
  shows "filter (\<lambda>x. x \<noteq> [] \<and> x \<noteq> ''.'') (split_sep (join ''/'' ps)) = ps"
proof (cases "ps = []")
  case True
  then show ?thesis by simp
next
  case False
  from assms have "\<forall>x \<in> set ps. CHR ''/'' \<notin> set x"
    by (auto simp: list_all_iff valid_part_def)
  with False have "split_sep (join ''/'' ps) = ps" by (rule split_sep_join)
  with assms show ?thesis by (simp add: filter_valid_parts)
qed

lemma Path_path_str:
  fixes q :: path
  assumes "valid_path q"
  shows "Path (path_str q) = q"
proof -
  from assms have v: "list_all valid_part (path_parts q)"
    and r: "path_root q = [] \<or> path_root q = ''/'' \<or> path_root q = ''//''"
    by (auto simp: valid_path_def)
  note st = valid_join_start [OF v]
  note pj = parts_of_join [OF v]
  from r show ?thesis
  proof (elim disjE)
    assume r0: "path_root q = []"
    show ?thesis
    proof (cases "path_parts q = []")
      case True
      with r0 have "path_str q = ''.''" by (simp add: path_str_def)
      then show ?thesis using r0 True by (simp add: Path_def splitroot_def)
    next
      case False
      with v have "hd (path_parts q) \<noteq> []"
        by (cases "path_parts q") (auto simp: valid_part_def)
      with join_hd [of "path_parts q" "''/''"] False have "join ''/'' (path_parts q) \<noteq> []"
        by simp
      with r0 have s: "path_str q = join ''/'' (path_parts q)" by (simp add: path_str_def)
      show ?thesis using r0 pj by (simp add: s Path_def splitroot_relative [OF st])
    qed
  next
    assume r1: "path_root q = ''/''"
    then have s: "path_str q = CHR ''/'' # join ''/'' (path_parts q)" by (simp add: path_str_def)
    show ?thesis using r1 pj by (simp add: s Path_def splitroot_one [OF st])
  next
    assume r2: "path_root q = ''//''"
    then have s: "path_str q = CHR ''/'' # CHR ''/'' # join ''/'' (path_parts q)"
      by (simp add: path_str_def)
    show ?thesis using r2 pj by (simp add: s Path_def splitroot_two [OF st])
  qed
qed

lemma rfind_bounds: "- 1 \<le> rfind c xs \<and> rfind c xs < int (length xs)"
  by (induction xs) (auto simp: Let_def)

lemma rfind_absent: "c \<notin> set xs \<Longrightarrow> rfind c xs = - 1"
  by (induction xs) (auto simp: Let_def)

lemma rfind_present: "c \<in> set xs \<Longrightarrow> 0 \<le> rfind c xs"
  by (induction xs) (auto simp: Let_def)

lemma rfind_append: "c \<notin> set ys \<Longrightarrow> rfind c (xs @ c # ys) = int (length xs)"
  by (induction xs) (auto simp: Let_def rfind_absent)

lemma rfind_split:
  "0 \<le> rfind c xs \<Longrightarrow>
     xs = take (nat (rfind c xs)) xs @ c # drop (Suc (nat (rfind c xs))) xs
     \<and> c \<notin> set (drop (Suc (nat (rfind c xs))) xs)"
proof (induction xs)
  case Nil
  then show ?case by simp
next
  case (Cons x xs)
  show ?case
  proof (cases "0 \<le> rfind c xs")
    case True
    with Cons.IH have "xs = take (nat (rfind c xs)) xs @ c # drop (Suc (nat (rfind c xs))) xs"
      and "c \<notin> set (drop (Suc (nat (rfind c xs))) xs)" by simp_all
    with True show ?thesis by (simp add: Let_def nat_add_distrib)
  next
    case False
    with rfind_present [of c xs] have "c \<notin> set xs" by auto
    with False Cons.prems show ?thesis by (auto simp: Let_def split: if_splits)
  qed
qed

lemma get_extension_cases:
  "get_extension m \<in> {''.png'', ''.jpg'', ''.webp'', ''.gif''}"
  by (auto simp: get_extension_def extensions_def)

lemma plain_ext_get_extension [simp]: "plain_ext (get_extension m)"
  using get_extension_cases [of m] by (auto simp: plain_ext_def)

lemma path_suffix_stem:
  "path_suffix p \<noteq> [] \<Longrightarrow>
     take (length (path_name p) - length (path_suffix p)) (path_name p) \<noteq> []
     \<and> take (length (path_name p) - length (path_suffix p)) (path_name p) @ path_suffix p = path_name p"
  using rfind_bounds [of "CHR ''.''" "path_name p"]
  by (auto simp: path_suffix_def Let_def split: if_splits)

lemma with_suffix_Inr:
  assumes "plain_ext e"
  shows "with_suffix p e =
           (if path_name p = [] then Inl ValueError
            else Inr (p\<lparr>path_parts := butlast (path_parts p) @
                     [take (length (path_name p) - length (path_suffix p)) (path_name p) @ e]\<rparr>))"
  using assms by (auto simp: with_suffix_def plain_ext_def Let_def)

lemma path_suffix_renamed:
  assumes "plain_ext e" "stem \<noteq> []"
  shows "path_suffix (p\<lparr>path_parts := ps @ [stem @ e]\<rparr>) = e"
proof -
  from assms obtain r where e: "e = CHR ''.'' # r" "r \<noteq> []" "CHR ''.'' \<notin> set r"
    by (auto simp: plain_ext_def)
  have "rfind (CHR ''.'') (stem @ e) = int (length stem)"
    unfolding e by (rule rfind_append) (rule e)
  with assms e show ?thesis
    by (simp add: path_suffix_def path_name_def Let_def)
qed

lemma with_suffix_suffix:
  assumes "with_suffix p e = Inr q" "plain_ext e"
  shows "path_suffix q = e"
proof -
  let ?stem = "take (length (path_name p) - length (path_suffix p)) (path_name p)"
  from assms have n: "path_name p \<noteq> []"
    and q: "q = p\<lparr>path_parts := butlast (path_parts p) @ [?stem @ e]\<rparr>"
    by (auto simp: with_suffix_Inr split: if_splits)
  have "?stem \<noteq> []"
  proof (cases "path_suffix p = []")
    case True
    with n show ?thesis by simp
  next
    case False
    with path_suffix_stem show ?thesis by blast
  qed
  with assms(2) show ?thesis unfolding q by (rule path_suffix_renamed)
qed


lemma with_suffix_valid:
  assumes "with_suffix p e = Inr q" "plain_ext e" "valid_path p"
  shows "valid_path q"
proof -
  let ?stem = "take (length (path_name p) - length (path_suffix p)) (path_name p)"
  from assms have n: "path_name p \<noteq> []"
    and q: "q = p\<lparr>path_parts := butlast (path_parts p) @ [?stem @ e]\<rparr>"
    by (auto simp: with_suffix_Inr split: if_splits)
  from n have ps: "path_parts p \<noteq> []" "last (path_parts p) = path_name p"
    by (auto simp: path_name_def split: if_splits)
  from assms(3) have all: "list_all valid_part (path_parts p)"
    and root: "path_root p \<in> {[], ''/'', ''//''}" by (auto simp: valid_path_def)
  from all ps have "valid_part (path_name p)"
    by (metis last_in_set list_all_iff)
  then have "CHR ''/'' \<notin> set ?stem"
    by (auto simp: valid_part_def dest: in_set_takeD)
  moreover from assms(2) obtain r where "e = CHR ''.'' # r" "r \<noteq> []" "CHR ''/'' \<notin> set r"
    by (auto simp: plain_ext_def)
  ultimately have "valid_part (?stem @ e)"
    by (auto simp: valid_part_def append_eq_Cons_conv)
  moreover from all have "list_all valid_part (butlast (path_parts p))"
    by (auto simp: list_all_iff dest: in_set_butlastD)
  ultimately show ?thesis using root unfolding q
    by (simp add: valid_path_def)
qed

section \<open>Outcomes of a run\<close>

lemma run_outcomes [case_names bad_key refs_exit refs_raise called]:
  obtains
    (bad_key) "spec_resolved_key (arg_key a) (environ_GEMINI_API_KEY w) = PLACEHOLDER_KEY"
      "run w a = (SysExit 1, fold eprint key_error_lines (banner a io0))"
      "posts (snd (run w a)) = []"
  | (refs_exit) n s1 where
      "spec_resolved_key (arg_key a) (environ_GEMINI_API_KEY w) \<noteq> PLACEHOLDER_KEY"
      "build_parts w (arg_prompt a) (arg_reference_images a) (banner a io0) = (SysExit n, s1)"
      "run w a = (SysExit n, s1)"
      "posts (snd (run w a)) = []"
  | (refs_raise) e s1 where
      "spec_resolved_key (arg_key a) (environ_GEMINI_API_KEY w) \<noteq> PLACEHOLDER_KEY"
      "build_parts w (arg_prompt a) (arg_reference_images a) (banner a io0) = (Raise e, s1)"
      "run w a = (Raise e, s1)"
      "posts (snd (run w a)) = []"
  | (called) parts s1 r2 s2 where
      "spec_resolved_key (arg_key a) (environ_GEMINI_API_KEY w) \<noteq> PLACEHOLDER_KEY"
      "build_parts w (arg_prompt a) (arg_reference_images a) (banner a io0) = (Return parts, s1)"
      "call_api w (request_of w a parts) s1 = (r2, s2)"
      "run w a =
         (case r2 of
            Return (image_bytes, mime_type) \<Rightarrow> save_image w a image_bytes mime_type s2
          | SysExit n \<Rightarrow> (SysExit n, s2)
          | Raise e \<Rightarrow> (Raise e, s2))"
      "posts (snd (run w a)) = [request_of w a parts]"
proof (cases rule: run_cases [of a w])
  case bad_key
  then show ?thesis by (intro that(1)) (simp_all add: fold_eprint)
next
  case (refs_exit n s1)
  with only_stderrD [OF build_parts_only_stderr [OF refs_exit(2)]] show ?thesis
    by (intro that(2) [of n s1]) simp_all
next
  case (refs_raise e s1)
  with only_stderrD [OF build_parts_only_stderr [OF refs_raise(2)]] show ?thesis
    by (intro that(3) [of e s1]) simp_all
next
  case (called parts s1 r2 s2)
  with run_posts_called [OF called(1,2)] show ?thesis
    by (intro that(4) [of parts s1 r2 s2]) simp_all
qed

section \<open>The image that is returned and saved\<close>

lemma first_inline_image_sniffed:
  "first_inline_image w ps s = (Return (Some (b, m)), s') \<Longrightarrow> m = fst (detect_image_format b)"
  by (induction ps arbitrary: s) (auto simp: Let_def split: option.splits if_splits)

lemma extract_image_sniffed:
  "extract_image w res s = (Return (b, m), s') \<Longrightarrow> m = fst (detect_image_format b)"
  unfolding extract_image_def Let_def
  by (auto split: if_splits prod.splits result.splits option.splits
        dest: first_inline_image_sniffed)

lemma call_api_sniffed:
  "call_api w req s = (Return (b, m), s') \<Longrightarrow> m = fst (detect_image_format b)"
  unfolding call_api_def Let_def
  by (cases "urlopen w req") (auto dest: extract_image_sniffed)

lemma truediv_valid [simp]: "valid_path p \<Longrightarrow> valid_path (truediv p s)"
  using Path_valid [of s]
  by (auto simp: truediv_def Let_def valid_path_def simp del: Path_valid)

lemma requested_path_valid [simp]: "valid_path (requested_path w a)"
  by (simp add: requested_path_def auto_path_def Let_def split: option.splits)

text \<open>What \<open>save_image\<close> does, case by case.\<close>

lemma save_image_no_name:
  "path_name (requested_path w a) = [] \<Longrightarrow> save_image w a b m s = (Raise ValueError, s)"
  by (simp add: save_image_def with_suffix_Inr)

lemma save_image_named:
  assumes "path_name (requested_path w a) \<noteq> []"
  obtains q where
    "with_suffix (requested_path w a) (get_extension m) = Inr q"
    "valid_path q" "path_suffix q = get_extension m" "Path (path_str q) = q"
    "save_image w a b m s =
       (let s1 = (if arg_output a \<noteq> Some (path_str q)
                  then eprint (''Note: Using '' @ get_extension m @ '' extension (actual format: ''
                               @ m @ '')'') s
                  else s)
        in if \<not> mkdir_ok w (path_str (path_parent q)) then (Raise OSError, s1)
           else if \<not> write_ok w (path_str q)
             then (Raise OSError, s1\<lparr>mkdirs := mkdirs s1 @ [path_str (path_parent q)]\<rparr>)
           else (Return (),
                 oprint (path_str q)
                   (eprint (''Image saved: '' @ path_str q)
                      (s1\<lparr>mkdirs := mkdirs s1 @ [path_str (path_parent q)],
                         written := written s1 @ [(path_str q, b)]\<rparr>))))"
proof -
  from assms obtain q where q: "with_suffix (requested_path w a) (get_extension m) = Inr q"
    by (auto simp: with_suffix_Inr)
  have v: "valid_path q" by (rule with_suffix_valid [OF q]) simp_all
  have sfx: "path_suffix q = get_extension m" by (rule with_suffix_suffix [OF q]) simp
  show ?thesis
    by (rule that [OF q v sfx Path_path_str [OF v]])
       (simp add: save_image_def q Let_def)
qed

lemma save_image_written:
  assumes "save_image w a b m s = (r, s')" "(f, c) \<in> set (written s') - set (written s)"
  shows "c = b \<and> path_suffix (Path f) = get_extension m"
proof (cases "path_name (requested_path w a) = []")
  case True
  with assms show ?thesis by (simp add: save_image_no_name)
next
  case False
  then obtain q where q: "path_suffix q = get_extension m" "Path (path_str q) = q"
    and sv: "save_image w a b m s =
       (let s1 = (if arg_output a \<noteq> Some (path_str q)
                  then eprint (''Note: Using '' @ get_extension m @ '' extension (actual format: ''
                               @ m @ '')'') s
                  else s)
        in if \<not> mkdir_ok w (path_str (path_parent q)) then (Raise OSError, s1)
           else if \<not> write_ok w (path_str q)
             then (Raise OSError, s1\<lparr>mkdirs := mkdirs s1 @ [path_str (path_parent q)]\<rparr>)
           else (Return (),
                 oprint (path_str q)
                   (eprint (''Image saved: '' @ path_str q)
                      (s1\<lparr>mkdirs := mkdirs s1 @ [path_str (path_parent q)],
                         written := written s1 @ [(path_str q, b)]\<rparr>))))"
    by (rule save_image_named [of w a m b s])
  from assms show ?thesis unfolding sv Let_def
    by (auto split: if_splits simp: q)
qed

lemma run_written:
  assumes "(f, b) \<in> set (written (snd (run w a)))"
  shows "path_suffix (Path f) = snd (detect_image_format b)
         \<and> fst (run w a) = Return () \<and> written (snd (run w a)) = [(f, b)]
         \<and> stdout (snd (run w a)) = [f]"
proof (cases rule: run_outcomes [of a w])
  case bad_key
  with assms show ?thesis by (simp add: fold_eprint)
next
  case (refs_exit n s1)
  with only_stderrD [OF build_parts_only_stderr [OF refs_exit(2)]] assms show ?thesis by simp
next
  case (refs_raise e s1)
  with only_stderrD [OF build_parts_only_stderr [OF refs_raise(2)]] assms show ?thesis by simp
next
  case (called parts s1 r2 s2)
  note p = called_posts [OF called(2,3)]
  show ?thesis
  proof (cases r2)
    case (Return x)
    obtain c m where x: "x = (c, m)" by fastforce
    from called(3) Return x have m: "m = fst (detect_image_format c)"
      by (auto dest: call_api_sniffed)
    from called(4) Return x have r: "run w a = save_image w a c m s2" by simp
    show ?thesis
    proof (cases "path_name (requested_path w a) = []")
      case True
      with r p assms show ?thesis by (simp add: save_image_no_name)
    next
      case False
      then obtain q where q: "path_suffix q = get_extension m" "Path (path_str q) = q"
        and sv: "save_image w a c m s2 =
       (let s1 = (if arg_output a \<noteq> Some (path_str q)
                  then eprint (''Note: Using '' @ get_extension m @ '' extension (actual format: ''
                               @ m @ '')'') s2
                  else s2)
        in if \<not> mkdir_ok w (path_str (path_parent q)) then (Raise OSError, s1)
           else if \<not> write_ok w (path_str q)
             then (Raise OSError, s1\<lparr>mkdirs := mkdirs s1 @ [path_str (path_parent q)]\<rparr>)
           else (Return (),
                 oprint (path_str q)
                   (eprint (''Image saved: '' @ path_str q)
                      (s1\<lparr>mkdirs := mkdirs s1 @ [path_str (path_parent q)],
                         written := written s1 @ [(path_str q, c)]\<rparr>))))"
        by (rule save_image_named [of w a m c s2])
      from assms p show ?thesis unfolding r sv Let_def
        by (auto split: if_splits simp: q m get_extension_detect)
    qed
  next
    case (SysExit n)
    with called(4) p assms show ?thesis by simp
  next
    case (Raise e)
    with called(4) p assms show ?thesis by simp
  qed
qed


lemma first_inline_image_skip:
  "\<forall>q \<in> set before. part_inlineData q = None \<Longrightarrow>
     first_inline_image w (before @ ps) s = first_inline_image w ps s"
  by (induction before) simp_all

lemma extract_image_first_inline:
  assumes "resp_candidates res = Some (c # cs)"
    and "cand_content c = Some (Some (before @ p # after))"
    and "\<forall>q \<in> set before. part_inlineData q = None"
    and "part_inlineData p = Some inl"
    and "inline_data_field inl = Some d"
    and "b64decode w d = Some image_bytes"
    and "reported = (case inline_mimeType inl of Some m \<Rightarrow> m | None \<Rightarrow> ''image/png'')"
    and "sniffed = fst (detect_image_format image_bytes)"
  shows "extract_image w res s =
           (Return (image_bytes, sniffed),
            if sniffed \<noteq> reported
            then eprint (''Note: API reported '' @ reported @ '', actual format is '' @ sniffed) s
            else s)"
proof -
  have "first_inline_image w (before @ p # after) s =
          (Return (Some (image_bytes, sniffed)),
           if sniffed \<noteq> reported
           then eprint (''Note: API reported '' @ reported @ '', actual format is '' @ sniffed) s
           else s)"
    unfolding first_inline_image_skip [OF assms(3)]
    using assms(4-8) by (simp add: Let_def)
  then show ?thesis
    using assms(1,2) by (simp add: extract_image_def)
qed

lemma save_image_succeeds:
  assumes "with_suffix (requested_path w a) (get_extension m) = Inr q"
    and "mkdir_ok w (path_str (path_parent q))" "write_ok w (path_str q)"
  shows "fst (save_image w a b m s) = Return ()"
    and "written (snd (save_image w a b m s)) = written s @ [(path_str q, b)]"
    and "stdout (snd (save_image w a b m s)) = stdout s @ [path_str q]"
    and "posts (snd (save_image w a b m s)) = posts s"
  using assms by (simp_all add: save_image_def Let_def)

text \<open>
  C1. The extension of the file that a run writes is the one that \<open>detect_image_format\<close>
  gives for the decoded bytes of the first inline image, whatever MIME type the response
  reports for it and whatever extension the caller's output path has: when the key is
  configured, the request parts are built, the response carries inline data that decodes,
  the output path has a name and the directory and the file can be written, the run writes
  exactly those bytes to the requested path with the sniffed extension forced on it and
  prints that path. And whatever a run writes, in any surroundings, carries the extension
  sniffed from the bytes written.
\<close>

theorem extension_follows_sniffed_bytes:
  assumes "spec_resolved_key (arg_key a) (environ_GEMINI_API_KEY w) \<noteq> PLACEHOLDER_KEY"
    and "build_parts w (arg_prompt a) (arg_reference_images a) (banner a io0) = (Return parts, s1)"
    and "urlopen w (request_of w a parts) = Response res"
    and "resp_candidates res = Some (c # cs)"
    and "cand_content c = Some (Some (before @ p # after))"
    and "\<forall>x \<in> set before. part_inlineData x = None"
    and "part_inlineData p = Some inl"
    and "inline_data_field inl = Some d"
    and "b64decode w d = Some image_bytes"
    and "path_name (requested_path w a) \<noteq> []"
    and "\<forall>f. mkdir_ok w f" and "\<forall>f. write_ok w f"
  shows "(\<exists>q. with_suffix (requested_path w a) (snd (detect_image_format image_bytes)) = Inr q \<and>
              fst (run w a) = Return () \<and>
              written (snd (run w a)) = [(path_str q, image_bytes)] \<and>
              stdout (snd (run w a)) = [path_str q] \<and>
              path_suffix (Path (path_str q)) = snd (detect_image_format image_bytes)) \<and>
         (\<forall>(f, b) \<in> set (written (snd (run v a'))).
              path_suffix (Path f) = snd (detect_image_format b))"
proof
  let ?m = "fst (detect_image_format image_bytes)"
  let ?s2 = "s1\<lparr>posts := posts s1 @ [request_of w a parts]\<rparr>"
  obtain s3 where ex: "extract_image w res ?s2 = (Return (image_bytes, ?m), s3)"
    using extract_image_first_inline [OF assms(4-9) refl refl, of ?s2] by simp
  then have ca: "call_api w (request_of w a parts) s1 = (Return (image_bytes, ?m), s3)"
    by (simp add: call_api_def assms(3))
  from only_stderrD [OF build_parts_only_stderr [OF assms(2)]]
    only_stderrD [OF call_api_effects [OF ca]]
  have s3: "written s3 = []" "stdout s3 = []" by simp_all
  have r: "run w a = save_image w a image_bytes ?m s3"
    using assms(2) ca
    by (simp add: run_def main_def generate_image_good_key [OF assms(1)] request_of_def)
  from assms(10) obtain q where
    q: "with_suffix (requested_path w a) (get_extension ?m) = Inr q"
    and sfx: "path_suffix q = get_extension ?m" and rt: "Path (path_str q) = q"
    by (rule save_image_named [of w a ?m]) blast
  from assms(11,12) have ok: "mkdir_ok w (path_str (path_parent q))" "write_ok w (path_str q)"
    by simp_all
  note sv = save_image_succeeds [OF q ok, of image_bytes s3]
  show "\<exists>q. with_suffix (requested_path w a) (snd (detect_image_format image_bytes)) = Inr q \<and>
              fst (run w a) = Return () \<and>
              written (snd (run w a)) = [(path_str q, image_bytes)] \<and>
              stdout (snd (run w a)) = [path_str q] \<and>
              path_suffix (Path (path_str q)) = snd (detect_image_format image_bytes)"
    using q sfx rt sv s3 unfolding r
    by (intro exI [of _ q]) (simp add: get_extension_detect)
  show "\<forall>(f, b) \<in> set (written (snd (run v a'))).
              path_suffix (Path f) = snd (detect_image_format b)"
    using run_written [of _ _ v a'] by auto
qed

lemma example_response_shape:
  "resp_candidates (example_response d m) =
     Some (\<lparr>cand_content = Some (Some
              ([\<lparr>part_inlineData = None, part_text = Some ''Here is your image.''\<rparr>]
               @ \<lparr>part_inlineData = Some \<lparr>inline_data_field = Some d, inline_mimeType = m\<rparr>,
                  part_text = None\<rparr> # []))\<rparr> # [])"
  by (simp add: example_response_def)

lemma requested_path_given:
  "out \<noteq> [] \<Longrightarrow> requested_path w (example_args (Some out) k refs) = Path out"
  by (simp add: requested_path_def)

lemma path_examples_more:
  "path_name (Path ''out.png'') = ''out.png''"
  "path_str \<lparr>path_root = [], path_parts = [''out.jpg'']\<rparr> = ''out.jpg''"
  by (simp_all add: Path_def splitroot_def path_str_def path_name_def)

theorem extension_follows_sniffed_bytes_witness:
  "fst (run (example_world (Some ''env-key'') example_files
               (Response (example_response ''/9j/4A=='' (Some ''image/png''))))
            (example_args (Some ''out.png'') None None)) = Return () \<and>
   written (snd (run (example_world (Some ''env-key'') example_files
               (Response (example_response ''/9j/4A=='' (Some ''image/png''))))
            (example_args (Some ''out.png'') None None))) = [(''out.jpg'', jpeg_image)] \<and>
   stdout (snd (run (example_world (Some ''env-key'') example_files
               (Response (example_response ''/9j/4A=='' (Some ''image/png''))))
            (example_args (Some ''out.png'') None None))) = [''out.jpg''] \<and>
   path_suffix (Path ''out.jpg'') = ''.jpg''"
proof -
  let ?res = "example_response ''/9j/4A=='' (Some ''image/png'')"
  let ?w = "example_world (Some ''env-key'') example_files (Response ?res)"
  let ?a = "example_args (Some ''out.png'') None None"
  have k: "spec_resolved_key (arg_key ?a) (environ_GEMINI_API_KEY ?w) \<noteq> PLACEHOLDER_KEY"
    by (simp add: spec_resolved_key_def PLACEHOLDER_KEY_def)
  have b: "build_parts ?w (arg_prompt ?a) (arg_reference_images ?a) (banner ?a io0)
             = (Return [TextPart ''A cute robot!''], banner ?a io0)"
    by simp
  have u: "urlopen ?w (request_of ?w ?a [TextPart ''A cute robot!'']) = Response ?res"
    by simp
  have n: "path_name (requested_path ?w ?a) \<noteq> []"
    by (simp add: requested_path_given path_examples_more)
  have ok: "\<forall>f. mkdir_ok ?w f" "\<forall>f. write_ok ?w f"
    by simp_all
  have d: "b64decode ?w ''/9j/4A=='' = Some jpeg_image"
    by simp
  have none: "\<forall>x \<in> set [\<lparr>part_inlineData = None, part_text = Some ''Here is your image.''\<rparr>].
                part_inlineData x = None"
    by simp
  let ?inl = "\<lparr>inline_data_field = Some ''/9j/4A=='', inline_mimeType = Some ''image/png''\<rparr>"
  let ?p = "\<lparr>part_inlineData = Some ?inl, part_text = None\<rparr>"
  let ?t = "\<lparr>part_inlineData = None, part_text = Some ''Here is your image.''\<rparr>"
  let ?c = "\<lparr>cand_content = Some (Some ([?t] @ ?p # []))\<rparr>"
  have c2: "cand_content ?c = Some (Some ([?t] @ ?p # []))"
    and c4: "part_inlineData ?p = Some ?inl"
    and c5: "inline_data_field ?inl = Some ''/9j/4A==''"
    by simp_all
  note th = extension_follows_sniffed_bytes
         [OF k b u example_response_shape c2 none c4 c5 d n ok, where v = ?w and a' = ?a,
          THEN conjunct1]
  then obtain q where q: "with_suffix (requested_path ?w ?a) (snd (detect_image_format jpeg_image)) = Inr q"
    and r: "fst (run ?w ?a) = Return ()" "written (snd (run ?w ?a)) = [(path_str q, jpeg_image)]"
      "stdout (snd (run ?w ?a)) = [path_str q]"
      "path_suffix (Path (path_str q)) = snd (detect_image_format jpeg_image)"
    by blast
  from q have "q = \<lparr>path_root = [], path_parts = [''out.jpg'']\<rparr>"
    by (simp add: requested_path_given sniff_examples path_examples)
  then have "path_str q = ''out.jpg''" by (simp add: path_examples_more)
  with r show ?thesis by (simp add: sniff_examples)
qed

section \<open>Extracting the result\<close>

text \<open>
  C7. The parts of the response are walked in order and the first part that carries inline
  image data decides the result: its base64 data is decoded and returned together with the
  MIME type sniffed from the decoded bytes; a note goes to the error stream exactly when
  the sniffed MIME type differs from the reported one (\<open>image/png\<close> when the part reports
  none), and the sniffed one is returned either way.
\<close>

theorem first_inline_part_decides:
  assumes "resp_candidates res = Some (c # cs)"
    and "cand_content c = Some (Some (before @ p # after))"
    and "\<forall>q \<in> set before. part_inlineData q = None"
    and "part_inlineData p = Some inl"
    and "inline_data_field inl = Some d"
    and "b64decode w d = Some image_bytes"
    and "reported = (case inline_mimeType inl of Some m \<Rightarrow> m | None \<Rightarrow> ''image/png'')"
    and "sniffed = fst (detect_image_format image_bytes)"
  shows "extract_image w res s =
           (Return (image_bytes, sniffed),
            if sniffed \<noteq> reported
            then eprint (''Note: API reported '' @ reported @ '', actual format is '' @ sniffed) s
            else s)"
  using assms by (rule extract_image_first_inline)

theorem first_inline_part_decides_witness:
  "extract_image (example_world None example_files Garbled)
     (example_response ''/9j/4A=='' (Some ''image/png'')) io0 =
     (Return (jpeg_image, ''image/jpeg''),
      eprint ''Note: API reported image/png, actual format is image/jpeg'' io0) \<and>
   extract_image (example_world None example_files Garbled)
     (example_response ''iVBORw0KGgo='' None) io0 =
     (Return (png_image, ''image/png''), io0)"
proof -
  let ?w = "example_world None example_files Garbled"
  let ?t = "\<lparr>part_inlineData = None, part_text = Some ''Here is your image.''\<rparr>"
  have none: "\<forall>x \<in> set [?t]. part_inlineData x = None" by simp
  let ?i = "\<lparr>inline_data_field = Some ''/9j/4A=='', inline_mimeType = Some ''image/png''\<rparr>"
  let ?p = "\<lparr>part_inlineData = Some ?i, part_text = None\<rparr>"
  let ?c = "\<lparr>cand_content = Some (Some ([?t] @ ?p # []))\<rparr>"
  let ?j = "\<lparr>inline_data_field = Some ''iVBORw0KGgo='', inline_mimeType = None\<rparr>"
  let ?r = "\<lparr>part_inlineData = Some ?j, part_text = None\<rparr>"
  let ?e = "\<lparr>cand_content = Some (Some ([?t] @ ?r # []))\<rparr>"
  have a: "cand_content ?c = Some (Some ([?t] @ ?p # []))" "part_inlineData ?p = Some ?i"
    "inline_data_field ?i = Some ''/9j/4A==''" "b64decode ?w ''/9j/4A=='' = Some jpeg_image"
    "''image/png'' = (case inline_mimeType ?i of Some m \<Rightarrow> m | None \<Rightarrow> ''image/png'')"
    "''image/jpeg'' = fst (detect_image_format jpeg_image)"
    by (simp_all add: sniff_examples)
  have b: "cand_content ?e = Some (Some ([?t] @ ?r # []))" "part_inlineData ?r = Some ?j"
    "inline_data_field ?j = Some ''iVBORw0KGgo=''" "b64decode ?w ''iVBORw0KGgo='' = Some png_image"
    "''image/png'' = (case inline_mimeType ?j of Some m \<Rightarrow> m | None \<Rightarrow> ''image/png'')"
    "''image/png'' = fst (detect_image_format png_image)"
    by (simp_all add: sniff_examples)
  from first_inline_part_decides [OF example_response_shape a(1) none a(2-6), of io0]
    first_inline_part_decides [OF example_response_shape b(1) none b(2-6), of io0]
  show ?thesis by simp
qed

section \<open>A response without candidates\<close>

lemma extract_image_no_candidates:
  "resp_candidates res = None \<or> resp_candidates res = Some [] \<Longrightarrow>
     extract_image w res s =
       (SysExit 1,
        eprint (''Response: '' @ json_dumps w res) (eprint ''Error: No candidates in response'' s))"
  by (auto simp: extract_image_def)

lemma run_no_candidates:
  assumes "resp_candidates res = None \<or> resp_candidates res = Some []"
    and "spec_resolved_key (arg_key a) (environ_GEMINI_API_KEY w) \<noteq> PLACEHOLDER_KEY"
    and "build_parts w (arg_prompt a) (arg_reference_images a) (banner a io0) = (Return parts, s1)"
    and "urlopen w (request_of w a parts) = Response res"
  shows "run w a =
           (SysExit 1,
            eprint (''Response: '' @ json_dumps w res)
              (eprint ''Error: No candidates in response''
                 (s1\<lparr>posts := posts s1 @ [request_of w a parts]\<rparr>)))"
  using assms(3,4)
  by (simp add: run_def main_def generate_image_good_key [OF assms(2)] request_of_def
        call_api_def extract_image_no_candidates [OF assms(1)])

text \<open>
  C8. For every parsed response whose candidates list is missing or empty, extraction prints
  the error and then the full response body to the error stream and exits with status 1;
  so a run that posted its request and got such a response ends with status 1, its last
  two lines on the error stream being these, with no file written and nothing on standard
  output.
\<close>

theorem no_candidates_fatal:
  assumes "resp_candidates res = None \<or> resp_candidates res = Some []"
  shows "extract_image w res s =
           (SysExit 1,
            eprint (''Response: '' @ json_dumps w res)
              (eprint ''Error: No candidates in response'' s)) \<and>
         (spec_resolved_key (arg_key a) (environ_GEMINI_API_KEY w) \<noteq> PLACEHOLDER_KEY \<and>
          build_parts w (arg_prompt a) (arg_reference_images a) (banner a io0) = (Return parts, s1) \<and>
          urlopen w (request_of w a parts) = Response res \<longrightarrow>
            fst (run w a) = SysExit 1 \<and> exit_status (fst (run w a)) = 1 \<and>
            stdout (snd (run w a)) = [] \<and> written (snd (run w a)) = [] \<and>
            stderr (snd (run w a)) =
              stderr s1 @ [''Error: No candidates in response'', ''Response: '' @ json_dumps w res]) \<and>
         (posts (snd (run w a)) = [req] \<and> urlopen w req = Response res \<longrightarrow>
            fst (run w a) = SysExit 1 \<and> exit_status (fst (run w a)) = 1 \<and>
            stdout (snd (run w a)) = [] \<and> written (snd (run w a)) = [] \<and>
            (\<exists>earlier. stderr (snd (run w a)) =
               earlier @ [''Error: No candidates in response'', ''Response: '' @ json_dumps w res]))"
proof (intro conjI impI)
  show "extract_image w res s =
           (SysExit 1,
            eprint (''Response: '' @ json_dumps w res)
              (eprint ''Error: No candidates in response'' s))"
    using assms by (rule extract_image_no_candidates)
next
  assume h: "spec_resolved_key (arg_key a) (environ_GEMINI_API_KEY w) \<noteq> PLACEHOLDER_KEY \<and>
          build_parts w (arg_prompt a) (arg_reference_images a) (banner a io0) = (Return parts, s1) \<and>
          urlopen w (request_of w a parts) = Response res"
  then have r: "run w a =
           (SysExit 1,
            eprint (''Response: '' @ json_dumps w res)
              (eprint ''Error: No candidates in response''
                 (s1\<lparr>posts := posts s1 @ [request_of w a parts]\<rparr>)))"
    using run_no_candidates [OF assms] by blast
  from h have b: "build_parts w (arg_prompt a) (arg_reference_images a) (banner a io0) = (Return parts, s1)"
    by blast
  note e = only_stderrD [OF build_parts_only_stderr [OF b]]
  show "fst (run w a) = SysExit 1" "exit_status (fst (run w a)) = 1"
    "stdout (snd (run w a)) = []" "written (snd (run w a)) = []"
    "stderr (snd (run w a)) =
       stderr s1 @ [''Error: No candidates in response'', ''Response: '' @ json_dumps w res]"
    using e by (simp_all add: r exit_status_def)
next
  assume h: "posts (snd (run w a)) = [req] \<and> urlopen w req = Response res"
  have "fst (run w a) = SysExit 1 \<and> exit_status (fst (run w a)) = 1 \<and>
        stdout (snd (run w a)) = [] \<and> written (snd (run w a)) = [] \<and>
        (\<exists>earlier. stderr (snd (run w a)) =
           earlier @ [''Error: No candidates in response'', ''Response: '' @ json_dumps w res])"
  proof (cases rule: run_outcomes [of a w])
    case bad_key
    with h show ?thesis by simp
  next
    case (refs_exit n s1)
    with h show ?thesis by simp
  next
    case (refs_raise e s1)
    with h show ?thesis by simp
  next
    case (called parts' s1' r2 s2)
    from called(5) h have req: "urlopen w (request_of w a parts') = Response res" by simp
    note e = only_stderrD [OF build_parts_only_stderr [OF called(2)]]
    from e show ?thesis
      by (simp add: run_no_candidates [OF assms called(1,2) req] exit_status_def)
  qed
  then show "fst (run w a) = SysExit 1" "exit_status (fst (run w a)) = 1"
    "stdout (snd (run w a)) = []" "written (snd (run w a)) = []"
    "\<exists>earlier. stderr (snd (run w a)) =
       earlier @ [''Error: No candidates in response'', ''Response: '' @ json_dumps w res]"
    by blast+
qed

lemma banner_example:
  "stderr (banner (example_args out k None) io0) =
     [''Generating image with gemini-3-pro-image-preview...'', ''Prompt: A cute robot!'',
      ''Aspect: 1:1, Size: 2K, Model: pro'']"
  by (simp add: banner_def MODELS_def model_key_def Let_def)

theorem no_candidates_fatal_witness:
  "fst (run (example_world (Some ''env-key'') example_files (Response \<lparr>resp_candidates = None\<rparr>))
            (example_args None None None)) = SysExit 1 \<and>
   stdout (snd (run (example_world (Some ''env-key'') example_files (Response \<lparr>resp_candidates = None\<rparr>))
            (example_args None None None))) = [] \<and>
   written (snd (run (example_world (Some ''env-key'') example_files (Response \<lparr>resp_candidates = None\<rparr>))
            (example_args None None None))) = [] \<and>
   stderr (snd (run (example_world (Some ''env-key'') example_files (Response \<lparr>resp_candidates = None\<rparr>))
            (example_args None None None))) =
     [''Generating image with gemini-3-pro-image-preview...'', ''Prompt: A cute robot!'',
      ''Aspect: 1:1, Size: 2K, Model: pro'', ''Error: No candidates in response'',
      ''Response: {}''] \<and>
   (\<exists>earlier.
      stderr (snd (run (example_world (Some ''env-key'') example_files (Response \<lparr>resp_candidates = None\<rparr>))
            (example_args None None None))) =
        earlier @ [''Error: No candidates in response'', ''Response: {}''])"
proof -
  let ?res = "\<lparr>resp_candidates = None\<rparr>"
  let ?w = "example_world (Some ''env-key'') example_files (Response ?res)"
  let ?a = "example_args None None None"
  let ?parts = "[TextPart ''A cute robot!'']"
  have c: "resp_candidates ?res = None \<or> resp_candidates ?res = Some []" by simp
  have k: "spec_resolved_key (arg_key ?a) (environ_GEMINI_API_KEY ?w) \<noteq> PLACEHOLDER_KEY"
    by (simp add: spec_resolved_key_def PLACEHOLDER_KEY_def)
  have b: "build_parts ?w (arg_prompt ?a) (arg_reference_images ?a) (banner ?a io0)
             = (Return ?parts, banner ?a io0)"
    by simp
  have u: "urlopen ?w (request_of ?w ?a ?parts) = Response ?res" by simp
  note p = run_posts_called [OF k b]
  note th = no_candidates_fatal [OF c, of ?w io0 ?a ?parts "banner ?a io0" "request_of ?w ?a ?parts"]
  from th k b u have two:
    "fst (run ?w ?a) = SysExit 1 \<and> exit_status (fst (run ?w ?a)) = 1 \<and>
     stdout (snd (run ?w ?a)) = [] \<and> written (snd (run ?w ?a)) = [] \<and>
     stderr (snd (run ?w ?a)) =
       stderr (banner ?a io0) @ [''Error: No candidates in response'', ''Response: '' @ json_dumps ?w ?res]"
    by blast
  from th p u have three:
    "\<exists>earlier. stderr (snd (run ?w ?a)) =
       earlier @ [''Error: No candidates in response'', ''Response: '' @ json_dumps ?w ?res]"
    by blast
  from two three show ?thesis by (simp add: banner_example)
qed

section \<open>The API key of a run\<close>

text \<open>
  C5. The API key is resolved in this order: a non-empty explicit key argument wins;
  otherwise \<open>get_api_key\<close> gives the environment variable if it is non-empty and the
  placeholder if not. With the placeholder, \<open>generate_image\<close> prints the configuration
  error that tells the user to set the environment variable and exits with status 1, and
  the run ends there without a request, a file or a line on standard output. With any
  other key, \<open>generate_image\<close> goes on to build the parts and to post the request whose
  URL carries that key.
\<close>

theorem api_key_resolution:
  "get_api_key w = spec_resolved_key None (environ_GEMINI_API_KEY w) \<and>
   generate_image w prompt ar sz refs mid k s =
     (if spec_resolved_key k (environ_GEMINI_API_KEY w) = PLACEHOLDER_KEY
      then (SysExit 1, fold eprint key_error_lines s)
      else (case build_parts w prompt refs s of
              (Return parts, s1) \<Rightarrow>
                call_api w \<lparr>req_url = API_BASE @ ''/'' @ mid @ '':generateContent?key=''
                                       @ spec_resolved_key k (environ_GEMINI_API_KEY w),
                            req_parts = parts, req_aspectRatio = ar, req_imageSize = sz\<rparr> s1
            | (SysExit n, s1) \<Rightarrow> (SysExit n, s1)
            | (Raise e, s1) \<Rightarrow> (Raise e, s1))) \<and>
   (spec_resolved_key (arg_key a) (environ_GEMINI_API_KEY v) = PLACEHOLDER_KEY \<longrightarrow>
      run v a = (SysExit 1, fold eprint key_error_lines (banner a io0)) \<and>
      posts (snd (run v a)) = [] \<and> stdout (snd (run v a)) = [] \<and> written (snd (run v a)) = [] \<and>
      stderr (snd (run v a)) = stderr (banner a io0) @ key_error_lines \<and>
      ''Please set the GEMINI_API_KEY environment variable:'' \<in> set (stderr (snd (run v a)))) \<and>
   (spec_resolved_key (arg_key a) (environ_GEMINI_API_KEY v) \<noteq> PLACEHOLDER_KEY \<longrightarrow>
      (\<forall>parts s1.
         build_parts v (arg_prompt a) (arg_reference_images a) (banner a io0) = (Return parts, s1) \<longrightarrow>
         posts (snd (run v a)) =
           [\<lparr>req_url = API_BASE @ ''/'' @ MODELS (arg_model a) @ '':generateContent?key=''
                         @ spec_resolved_key (arg_key a) (environ_GEMINI_API_KEY v),
             req_parts = parts, req_aspectRatio = arg_aspect a, req_imageSize = arg_size a\<rparr>]) \<and>
      (\<forall>req \<in> set (posts (snd (run v a))).
         req_url req = API_BASE @ ''/'' @ MODELS (arg_model a) @ '':generateContent?key=''
                         @ spec_resolved_key (arg_key a) (environ_GEMINI_API_KEY v)))"
proof (intro conjI impI allI)
  show "get_api_key w = spec_resolved_key None (environ_GEMINI_API_KEY w)"
    by (simp add: spec_resolved_key_def get_api_key_def)
next
  show "generate_image w prompt ar sz refs mid k s =
     (if spec_resolved_key k (environ_GEMINI_API_KEY w) = PLACEHOLDER_KEY
      then (SysExit 1, fold eprint key_error_lines s)
      else (case build_parts w prompt refs s of
              (Return parts, s1) \<Rightarrow>
                call_api w \<lparr>req_url = API_BASE @ ''/'' @ mid @ '':generateContent?key=''
                                       @ spec_resolved_key k (environ_GEMINI_API_KEY w),
                            req_parts = parts, req_aspectRatio = ar, req_imageSize = sz\<rparr> s1
            | (SysExit n, s1) \<Rightarrow> (SysExit n, s1)
            | (Raise e, s1) \<Rightarrow> (Raise e, s1)))"
    using generate_image_bad_key [of k w prompt ar sz refs mid s]
      generate_image_good_key [of k w prompt ar sz refs mid s]
    by (cases "spec_resolved_key k (environ_GEMINI_API_KEY w) = PLACEHOLDER_KEY") simp_all
next
  assume bad: "spec_resolved_key (arg_key a) (environ_GEMINI_API_KEY v) = PLACEHOLDER_KEY"
  then have r: "run v a = (SysExit 1, fold eprint key_error_lines (banner a io0))"
    by (simp add: run_def main_def generate_image_bad_key)
  show "run v a = (SysExit 1, fold eprint key_error_lines (banner a io0))" by (rule r)
  show "posts (snd (run v a)) = []" "stdout (snd (run v a)) = []" "written (snd (run v a)) = []"
    "stderr (snd (run v a)) = stderr (banner a io0) @ key_error_lines"
    by (simp_all add: r fold_eprint)
  show "''Please set the GEMINI_API_KEY environment variable:'' \<in> set (stderr (snd (run v a)))"
    by (simp add: r fold_eprint) (simp add: key_error_lines_def)
next
  fix parts s1
  assume "spec_resolved_key (arg_key a) (environ_GEMINI_API_KEY v) \<noteq> PLACEHOLDER_KEY"
    and "build_parts v (arg_prompt a) (arg_reference_images a) (banner a io0) = (Return parts, s1)"
  then show "posts (snd (run v a)) =
           [\<lparr>req_url = API_BASE @ ''/'' @ MODELS (arg_model a) @ '':generateContent?key=''
                         @ spec_resolved_key (arg_key a) (environ_GEMINI_API_KEY v),
             req_parts = parts, req_aspectRatio = arg_aspect a, req_imageSize = arg_size a\<rparr>]"
    using run_posts_called [of a v parts s1] by (simp add: request_of_def)
next
  assume good: "spec_resolved_key (arg_key a) (environ_GEMINI_API_KEY v) \<noteq> PLACEHOLDER_KEY"
  show "\<forall>req \<in> set (posts (snd (run v a))).
         req_url req = API_BASE @ ''/'' @ MODELS (arg_model a) @ '':generateContent?key=''
                         @ spec_resolved_key (arg_key a) (environ_GEMINI_API_KEY v)"
    using posts_run_cases [of v a] by (auto simp: request_of_def)
qed

theorem api_key_resolution_witness:
  "map req_url (posts (snd (run (example_world (Some ''env-key'') example_files Garbled)
                                  (example_args None (Some ''cli-key'') None))))
     = [''https://generativelanguage.googleapis.com/v1beta/models/gemini-3-pro-image-preview:generateContent?key=cli-key''] \<and>
   map req_url (posts (snd (run (example_world (Some ''env-key'') example_files Garbled)
                                  (example_args None None None))))
     = [''https://generativelanguage.googleapis.com/v1beta/models/gemini-3-pro-image-preview:generateContent?key=env-key''] \<and>
   fst (run (example_world None example_files Garbled) (example_args None None None)) = SysExit 1 \<and>
   posts (snd (run (example_world None example_files Garbled) (example_args None None None))) = [] \<and>
   get_api_key (example_world None example_files Garbled) = ''YOUR_GEMINI_API_KEY_HERE'' \<and>
   get_api_key (example_world (Some ''env-key'') example_files Garbled) = ''env-key''"
proof -
  let ?w = "example_world (Some ''env-key'') example_files Garbled"
  let ?v = "example_world None example_files Garbled"
  let ?a = "example_args None (Some ''cli-key'') None"
  let ?b = "example_args None None None"
  have k1: "spec_resolved_key (arg_key ?a) (environ_GEMINI_API_KEY ?w) = ''cli-key''"
    and k2: "spec_resolved_key (arg_key ?b) (environ_GEMINI_API_KEY ?w) = ''env-key''"
    and k3: "spec_resolved_key (arg_key ?b) (environ_GEMINI_API_KEY ?v) = PLACEHOLDER_KEY"
    by (simp_all add: spec_resolved_key_def)
  have g1: "spec_resolved_key (arg_key ?a) (environ_GEMINI_API_KEY ?w) \<noteq> PLACEHOLDER_KEY"
    and g2: "spec_resolved_key (arg_key ?b) (environ_GEMINI_API_KEY ?w) \<noteq> PLACEHOLDER_KEY"
    by (simp_all add: spec_resolved_key_def PLACEHOLDER_KEY_def)
  have b1: "build_parts ?w (arg_prompt ?a) (arg_reference_images ?a) (banner ?a io0)
              = (Return [TextPart ''A cute robot!''], banner ?a io0)"
    and b2: "build_parts ?w (arg_prompt ?b) (arg_reference_images ?b) (banner ?b io0)
              = (Return [TextPart ''A cute robot!''], banner ?b io0)"
    by simp_all
  note t1 = api_key_resolution [where v = ?w and a = ?a and w = ?v and k = None
      and prompt = "[]" and ar = "[]" and sz = "[]" and refs = None and mid = "[]" and s = io0]
  note t2 = api_key_resolution [where v = ?w and a = ?b and w = ?w and k = None
      and prompt = "[]" and ar = "[]" and sz = "[]" and refs = None and mid = "[]" and s = io0]
  note t3 = api_key_resolution [where v = ?v and a = ?b and w = ?v and k = None
      and prompt = "[]" and ar = "[]" and sz = "[]" and refs = None and mid = "[]" and s = io0]
  note d1 = t1 [THEN conjunct2, THEN conjunct2, THEN conjunct2, rule_format, OF g1, THEN conjunct1,
      rule_format, OF b1]
  note d2 = t2 [THEN conjunct2, THEN conjunct2, THEN conjunct2, rule_format, OF g2, THEN conjunct1,
      rule_format, OF b2]
  note d3 = t3 [THEN conjunct2, THEN conjunct2, THEN conjunct1, rule_format, OF k3]
  from d1 have u1: "map req_url (posts (snd (run ?w ?a)))
              = [API_BASE @ ''/'' @ MODELS pro @ '':generateContent?key='' @ ''cli-key'']"
    unfolding k1 by simp
  from d2 have u2: "map req_url (posts (snd (run ?w ?b)))
              = [API_BASE @ ''/'' @ MODELS pro @ '':generateContent?key='' @ ''env-key'']"
    unfolding k2 by simp
  from d3 have u3: "fst (run ?v ?b) = SysExit 1 \<and> posts (snd (run ?v ?b)) = []"
    by (simp add: fold_eprint)
  note u4 = t3 [THEN conjunct1]
  note u5 = t2 [THEN conjunct1]
  from u1 u2 u3 u4 u5 show ?thesis
    by (simp add: API_BASE_def MODELS_def spec_resolved_key_def PLACEHOLDER_KEY_def)
qed

section \<open>The tables and the saved file\<close>

lemma run_saves_sniffed:
  assumes "spec_resolved_key (arg_key a) (environ_GEMINI_API_KEY w) \<noteq> PLACEHOLDER_KEY"
    and "build_parts w (arg_prompt a) (arg_reference_images a) (banner a io0) = (Return parts, s1)"
    and "urlopen w (request_of w a parts) = Response res"
    and "resp_candidates res = Some (c # cs)"
    and "cand_content c = Some (Some (before @ p # after))"
    and "\<forall>x \<in> set before. part_inlineData x = None"
    and "part_inlineData p = Some inl"
    and "inline_data_field inl = Some d"
    and "b64decode w d = Some image_bytes"
    and "with_suffix (requested_path w a) (snd (detect_image_format image_bytes)) = Inr q"
    and "mkdir_ok w (path_str (path_parent q))" and "write_ok w (path_str q)"
  shows "fst (run w a) = Return ()"
    and "written (snd (run w a)) = [(path_str q, image_bytes)]"
    and "stdout (snd (run w a)) = [path_str q]"
proof -
  let ?m = "fst (detect_image_format image_bytes)"
  let ?s2 = "s1\<lparr>posts := posts s1 @ [request_of w a parts]\<rparr>"
  obtain s3 where ex: "extract_image w res ?s2 = (Return (image_bytes, ?m), s3)"
    using extract_image_first_inline [OF assms(4-9) refl refl, of ?s2] by simp
  then have ca: "call_api w (request_of w a parts) s1 = (Return (image_bytes, ?m), s3)"
    by (simp add: call_api_def assms(3))
  from only_stderrD [OF build_parts_only_stderr [OF assms(2)]]
    only_stderrD [OF call_api_effects [OF ca]]
  have s3: "written s3 = []" "stdout s3 = []" by simp_all
  have r: "run w a = save_image w a image_bytes ?m s3"
    using assms(2) ca
    by (simp add: run_def main_def generate_image_good_key [OF assms(1)] request_of_def)
  from assms(10) have q: "with_suffix (requested_path w a) (get_extension ?m) = Inr q"
    by (simp add: get_extension_detect)
  note sv = save_image_succeeds [OF q assms(11,12), of image_bytes s3]
  show "fst (run w a) = Return ()" "written (snd (run w a)) = [(path_str q, image_bytes)]"
    "stdout (snd (run w a)) = [path_str q]"
    using sv s3 unfolding r by simp_all
qed

lemma example_run_saved:
  "written (snd (run (example_world (Some ''env-key'') example_files
               (Response (example_response ''/9j/4A=='' (Some ''image/png''))))
            (example_args (Some ''out.png'') None None))) = [(''out.jpg'', jpeg_image)]"
proof -
  let ?res = "example_response ''/9j/4A=='' (Some ''image/png'')"
  let ?w = "example_world (Some ''env-key'') example_files (Response ?res)"
  let ?a = "example_args (Some ''out.png'') None None"
  let ?q = "\<lparr>path_root = [], path_parts = [''out.jpg'']\<rparr>"
  have k: "spec_resolved_key (arg_key ?a) (environ_GEMINI_API_KEY ?w) \<noteq> PLACEHOLDER_KEY"
    by (simp add: spec_resolved_key_def PLACEHOLDER_KEY_def)
  have b: "build_parts ?w (arg_prompt ?a) (arg_reference_images ?a) (banner ?a io0)
             = (Return [TextPart ''A cute robot!''], banner ?a io0)"
    by simp
  have u: "urlopen ?w (request_of ?w ?a [TextPart ''A cute robot!'']) = Response ?res"
    by simp
  have d: "b64decode ?w ''/9j/4A=='' = Some jpeg_image"
    by simp
  let ?inl = "\<lparr>inline_data_field = Some ''/9j/4A=='', inline_mimeType = Some ''image/png''\<rparr>"
  let ?p = "\<lparr>part_inlineData = Some ?inl, part_text = None\<rparr>"
  let ?t = "\<lparr>part_inlineData = None, part_text = Some ''Here is your image.''\<rparr>"
  let ?c = "\<lparr>cand_content = Some (Some ([?t] @ ?p # []))\<rparr>"
  have none: "\<forall>x \<in> set [?t]. part_inlineData x = None" by simp
  have c2: "cand_content ?c = Some (Some ([?t] @ ?p # []))"
    and c4: "part_inlineData ?p = Some ?inl"
    and c5: "inline_data_field ?inl = Some ''/9j/4A==''"
    by simp_all
  have q: "with_suffix (requested_path ?w ?a) (snd (detect_image_format jpeg_image)) = Inr ?q"
    by (simp add: requested_path_given sniff_examples path_examples)
  have ok: "mkdir_ok ?w (path_str (path_parent ?q))" "write_ok ?w (path_str ?q)"
    by simp_all
  from run_saves_sniffed(2) [OF k b u example_response_shape c2 none c4 c5 d q ok]
  show ?thesis by (simp add: path_examples_more)
qed

text \<open>
  C10. The two format tables agree: if \<open>detect_image_format b\<close> returns \<open>(mime, ext)\<close>
  then \<open>get_extension mime\<close> returns that \<open>ext\<close>, and \<open>get_extension\<close> returns
  \<open>.png\<close> for every MIME type outside the four supported ones. Hence the extension
  forced onto the output path is the one the sniffer associates with the bytes written:
  for an output path with a name, the path with the extension of the sniffed MIME type has
  the sniffer's extension, and \<open>save_image\<close> writes the bytes there when the directory
  and the file can be written; and every file that a run writes has the sniffer's
  extension for its bytes.
\<close>

theorem format_tables_consistent:
  "(detect_image_format b = (mime, ext) \<longrightarrow> get_extension mime = ext) \<and>
   (m \<notin> {''image/png'', ''image/jpeg'', ''image/webp'', ''image/gif''} \<longrightarrow>
      get_extension m = ''.png'') \<and>
   (path_name (requested_path w a) \<noteq> [] \<longrightarrow>
      (\<exists>q. with_suffix (requested_path w a) (get_extension (fst (detect_image_format b))) = Inr q \<and>
           path_suffix q = snd (detect_image_format b) \<and>
           path_suffix (Path (path_str q)) = snd (detect_image_format b) \<and>
           (mkdir_ok w (path_str (path_parent q)) \<and> write_ok w (path_str q) \<longrightarrow>
              fst (save_image w a b (fst (detect_image_format b)) s) = Return () \<and>
              written (snd (save_image w a b (fst (detect_image_format b)) s))
                = written s @ [(path_str q, b)]))) \<and>
   (\<forall>(f, c) \<in> set (written (snd (run v a'))).
      path_suffix (Path f) = snd (detect_image_format c))"
proof (intro conjI)
  show "detect_image_format b = (mime, ext) \<longrightarrow> get_extension mime = ext"
    using get_extension_detect [of b] by auto
  show "m \<notin> {''image/png'', ''image/jpeg'', ''image/webp'', ''image/gif''} \<longrightarrow>
      get_extension m = ''.png''"
    by (simp add: get_extension_def extensions_def)
  show "path_name (requested_path w a) \<noteq> [] \<longrightarrow>
      (\<exists>q. with_suffix (requested_path w a) (get_extension (fst (detect_image_format b))) = Inr q \<and>
           path_suffix q = snd (detect_image_format b) \<and>
           path_suffix (Path (path_str q)) = snd (detect_image_format b) \<and>
           (mkdir_ok w (path_str (path_parent q)) \<and> write_ok w (path_str q) \<longrightarrow>
              fst (save_image w a b (fst (detect_image_format b)) s) = Return () \<and>
              written (snd (save_image w a b (fst (detect_image_format b)) s))
                = written s @ [(path_str q, b)]))"
  proof
    let ?m = "fst (detect_image_format b)"
    assume "path_name (requested_path w a) \<noteq> []"
    then obtain q where q: "with_suffix (requested_path w a) (get_extension ?m) = Inr q"
      and sfx: "path_suffix q = get_extension ?m" and rt: "Path (path_str q) = q"
      by (rule save_image_named [of w a ?m]) blast
    show "\<exists>q. with_suffix (requested_path w a) (get_extension ?m) = Inr q \<and>
           path_suffix q = snd (detect_image_format b) \<and>
           path_suffix (Path (path_str q)) = snd (detect_image_format b) \<and>
           (mkdir_ok w (path_str (path_parent q)) \<and> write_ok w (path_str q) \<longrightarrow>
              fst (save_image w a b ?m s) = Return () \<and>
              written (snd (save_image w a b ?m s)) = written s @ [(path_str q, b)])"
      using q sfx rt save_image_succeeds(1,2) [OF q, of b s]
      by (intro exI [of _ q]) (simp add: get_extension_detect)
  qed
  show "\<forall>(f, c) \<in> set (written (snd (run v a'))).
      path_suffix (Path f) = snd (detect_image_format c)"
    using run_written [of _ _ v a'] by auto
qed

theorem format_tables_consistent_witness:
  "detect_image_format jpeg_image = (''image/jpeg'', ''.jpg'') \<and>
   get_extension ''image/jpeg'' = ''.jpg'' \<and>
   ''image/bmp'' \<notin> {''image/png'', ''image/jpeg'', ''image/webp'', ''image/gif''} \<and>
   get_extension ''image/bmp'' = ''.png'' \<and>
   written (snd (save_image (example_world None example_files Garbled)
                   (example_args (Some ''out.png'') None None) jpeg_image ''image/jpeg'' io0))
     = [(''out.jpg'', jpeg_image)] \<and>
   (''out.jpg'', jpeg_image) \<in>
     set (written (snd (run (example_world (Some ''env-key'') example_files
               (Response (example_response ''/9j/4A=='' (Some ''image/png''))))
            (example_args (Some ''out.png'') None None)))) \<and>
   path_suffix (Path ''out.jpg'') = ''.jpg''"
proof -
  let ?w = "example_world None example_files Garbled"
  let ?a = "example_args (Some ''out.png'') None None"
  let ?v = "example_world (Some ''env-key'') example_files
               (Response (example_response ''/9j/4A=='' (Some ''image/png'')))"
  let ?q = "\<lparr>path_root = [], path_parts = [''out.jpg'']\<rparr>"
  note th = format_tables_consistent
    [where b = jpeg_image and mime = "''image/jpeg''" and ext = "''.jpg''" and m = "''image/bmp''"
       and w = ?w and a = ?a and s = io0 and v = ?v and a' = ?a]
  have d: "detect_image_format jpeg_image = (''image/jpeg'', ''.jpg'')"
    by (rule sniff_examples)
  have n: "''image/bmp'' \<notin> {''image/png'', ''image/jpeg'', ''image/webp'', ''image/gif''}"
    by simp
  have nm: "path_name (requested_path ?w ?a) \<noteq> []"
    by (simp add: requested_path_given path_examples_more)
  from th d have t1: "get_extension ''image/jpeg'' = ''.jpg''" by blast
  from th n have t2: "get_extension ''image/bmp'' = ''.png''" by blast
  from th nm obtain q where
    q: "with_suffix (requested_path ?w ?a) (get_extension (fst (detect_image_format jpeg_image))) = Inr q"
    and sv: "mkdir_ok ?w (path_str (path_parent q)) \<and> write_ok ?w (path_str q) \<longrightarrow>
              fst (save_image ?w ?a jpeg_image (fst (detect_image_format jpeg_image)) io0) = Return () \<and>
              written (snd (save_image ?w ?a jpeg_image (fst (detect_image_format jpeg_image)) io0))
                = written io0 @ [(path_str q, jpeg_image)]"
    by blast
  from q have "q = ?q"
    by (simp add: requested_path_given sniff_examples path_examples t1)
  with sv have t3: "written (snd (save_image ?w ?a jpeg_image ''image/jpeg'' io0))
     = [(''out.jpg'', jpeg_image)]"
    by (simp add: sniff_examples path_examples_more)
  have mem: "(''out.jpg'', jpeg_image) \<in> set (written (snd (run ?v ?a)))"
    by (simp add: example_run_saved)
  with th have t4: "path_suffix (Path ''out.jpg'') = snd (detect_image_format jpeg_image)"
    by blast
  from d n t1 t2 t3 mem t4 show ?thesis by (simp add: sniff_examples)
qed

section \<open>Reference images\<close>

lemma map_Some_eq_append_None: "map Some xs \<noteq> map Some ys @ None # zs"
proof
  assume "map Some xs = map Some ys @ None # zs"
  then have "None \<in> set (map Some xs)" by simp
  then show False by auto
qed

lemma eprint_stderr_update [simp]: "(eprint l s)\<lparr>stderr := x\<rparr> = s\<lparr>stderr := x\<rparr>"
  by (simp add: eprint_def)

lemma load_image_as_base64_cases:
  "load_image_as_base64 w p s =
     (case fs w (path_str (Path p)) of
        None \<Rightarrow> (SysExit 1, eprint (''Error: Reference image not found: '' @ p) s)
      | Some Dir \<Rightarrow> (Raise OSError, s)
      | Some (File b) \<Rightarrow> (Return (b64encode w b, fst (detect_image_format b)), s))"
  by (simp add: load_image_as_base64_def)

lemma add_reference_images_Return_iff:
  "add_reference_images w refs parts s = (Return parts', s') \<longleftrightarrow>
     map Some parts' = map Some parts @ map (reference_part w) refs \<and>
     s' = s\<lparr>stderr := stderr s @ map added_line refs\<rparr>"
proof (induction refs arbitrary: parts s)
  case Nil
  show ?case by (auto simp: inj_map_eq_map)
next
  case (Cons p refs)
  show ?case
  proof (cases "fs w (path_str (Path p))")
    case None
    then show ?thesis
      by (simp add: load_image_as_base64_cases reference_part_def map_Some_eq_append_None)
  next
    case (Some nd)
    show ?thesis
    proof (cases nd)
      case (File b)
      let ?part = "InlinePart (fst (detect_image_format b)) (b64encode w b)"
      from Some File have "add_reference_images w (p # refs) parts s =
          add_reference_images w refs (parts @ [?part]) (eprint (added_line p) s)"
        by (simp add: load_image_as_base64_cases added_line_def)
      with Some File show ?thesis
        by (simp add: Cons.IH reference_part_def)
    next
      case Dir
      with Some show ?thesis
        by (simp add: load_image_as_base64_cases reference_part_def map_Some_eq_append_None)
    qed
  qed
qed

lemma build_parts_Return_iff:
  "build_parts w prompt (Some refs) s = (Return parts, s') \<longleftrightarrow>
     map Some parts = Some (TextPart prompt) # map (reference_part w) (take 14 refs) \<and>
     s' = s\<lparr>stderr := stderr s @ (if 14 < length refs then [warning_14] else [])
                              @ map added_line (take 14 refs)\<rparr>"
proof (cases "refs = []")
  case True
  then show ?thesis by (auto simp: build_parts_def)
next
  case False
  show ?thesis
  proof (cases "14 < length refs")
    case True
    from True False show ?thesis
      by (simp add: build_parts_def add_reference_images_Return_iff warning_14_def [symmetric])
  next
    case nl: False
    with False show ?thesis
      by (simp add: build_parts_def add_reference_images_Return_iff)
  qed
qed

lemma stderr_grows_run:
  assumes "build_parts w (arg_prompt a) (arg_reference_images a) (banner a io0) = (Return parts, s1)"
    and "spec_resolved_key (arg_key a) (environ_GEMINI_API_KEY w) \<noteq> PLACEHOLDER_KEY"
  shows "\<exists>ls. stderr (snd (run w a)) = stderr s1 @ ls"
proof -
  obtain r2 s2 where c: "call_api w (request_of w a parts) s1 = (r2, s2)" by fastforce
  from only_stderrD [OF call_api_effects [OF c]] obtain l2 where l2: "stderr s2 = stderr s1 @ l2"
    by auto
  have r: "run w a =
         (case r2 of
            Return (image_bytes, mime_type) \<Rightarrow> save_image w a image_bytes mime_type s2
          | SysExit n \<Rightarrow> (SysExit n, s2)
          | Raise e \<Rightarrow> (Raise e, s2))"
    using assms(1) c
    by (simp add: run_def main_def generate_image_good_key [OF assms(2)] request_of_def
          split: result.splits)
  show ?thesis
  proof (cases r2)
    case (Return x)
    obtain b m where x: "x = (b, m)" by fastforce
    obtain r3 s3 where sv: "save_image w a b m s2 = (r3, s3)" by fastforce
    from save_image_effects(3) [OF sv] obtain l3 where "stderr s3 = stderr s2 @ l3" by auto
    with r Return x sv l2 show ?thesis by simp
  next
    case (SysExit n)
    with r l2 show ?thesis by simp
  next
    case (Raise e)
    with r l2 show ?thesis by simp
  qed
qed

text \<open>
  C4. For every list of reference image paths, exactly the first 14 are used when the list
  is longer, after a warning on the error stream, and the whole list when it is not; the
  parts of the request are the text prompt and then one part per used path, in the order
  of the list.
\<close>

theorem reference_images_first_14:
  "(build_parts w prompt (Some refs) s = (Return parts, s') \<longleftrightarrow>
      map Some parts = Some (TextPart prompt) # map (reference_part w) (take 14 refs) \<and>
      s' = s\<lparr>stderr := stderr s @ (if 14 < length refs then [warning_14] else [])
                               @ map added_line (take 14 refs)\<rparr>) \<and>
   (posts (snd (run v a)) = [req] \<and> arg_reference_images a = Some refs \<longrightarrow>
      map Some (req_parts req) =
        Some (TextPart (arg_prompt a)) # map (reference_part v) (take 14 refs) \<and>
      (14 < length refs \<longrightarrow> warning_14 \<in> set (stderr (snd (run v a)))) \<and>
      (length refs \<le> 14 \<longrightarrow>
         map Some (req_parts req) = Some (TextPart (arg_prompt a)) # map (reference_part v) refs))"
proof (intro conjI impI)
  show "build_parts w prompt (Some refs) s = (Return parts, s') \<longleftrightarrow>
      map Some parts = Some (TextPart prompt) # map (reference_part w) (take 14 refs) \<and>
      s' = s\<lparr>stderr := stderr s @ (if 14 < length refs then [warning_14] else [])
                               @ map added_line (take 14 refs)\<rparr>"
    by (rule build_parts_Return_iff)
next
  assume h: "posts (snd (run v a)) = [req] \<and> arg_reference_images a = Some refs"
  from h posts_run_cases [of v a] obtain parts' s1 where
    k: "spec_resolved_key (arg_key a) (environ_GEMINI_API_KEY v) \<noteq> PLACEHOLDER_KEY"
    and b: "build_parts v (arg_prompt a) (arg_reference_images a) (banner a io0) = (Return parts', s1)"
    and r: "req = request_of v a parts'"
    by auto
  from b h have bi: "map Some parts' =
      Some (TextPart (arg_prompt a)) # map (reference_part v) (take 14 refs)"
    and s1: "s1 = (banner a io0)\<lparr>stderr := stderr (banner a io0)
                    @ (if 14 < length refs then [warning_14] else [])
                    @ map added_line (take 14 refs)\<rparr>"
    by (simp_all add: build_parts_Return_iff)
  from bi r show m: "map Some (req_parts req) =
        Some (TextPart (arg_prompt a)) # map (reference_part v) (take 14 refs)"
    by (simp add: request_of_def)
  {
    assume "length refs \<le> 14"
    with m show "map Some (req_parts req) =
        Some (TextPart (arg_prompt a)) # map (reference_part v) refs"
      by simp
  }
  {
    assume "14 < length refs"
    with s1 have "warning_14 \<in> set (stderr s1)" by simp
    with stderr_grows_run [OF b k] show "warning_14 \<in> set (stderr (snd (run v a)))"
      by auto
  }
qed

lemma fifteen_refs_simps:
  "length fifteen_refs = 15" "take 14 fifteen_refs = replicate 14 ''ref.png''"
  "''missing.png'' \<in> set fifteen_refs"
  by (simp_all add: fifteen_refs_def)

lemma reference_part_example:
  "reference_part (example_world e example_files ans) ''ref.png''
     = Some (InlinePart ''image/png'' ''iVBORw0KGgo='')"
  by (simp add: reference_part_def example_files_def path_examples sniff_examples)

lemma example_build_parts:
  "build_parts (example_world e example_files ans) prompt (Some fifteen_refs) s =
     (Return (TextPart prompt # replicate 14 (InlinePart ''image/png'' ''iVBORw0KGgo='')),
      s\<lparr>stderr := stderr s @ warning_14 # replicate 14 (added_line ''ref.png'')\<rparr>)"
  by (simp add: build_parts_Return_iff fifteen_refs_simps reference_part_example)

theorem reference_images_first_14_witness:
  "build_parts (example_world (Some ''env-key'') example_files Garbled) ''A cute robot!''
     (Some fifteen_refs) io0 =
     (Return (TextPart ''A cute robot!'' # replicate 14 (InlinePart ''image/png'' ''iVBORw0KGgo='')),
      io0\<lparr>stderr := warning_14 # replicate 14 (added_line ''ref.png'')\<rparr>) \<and>
   map req_parts (posts (snd (run (example_world (Some ''env-key'') example_files Garbled)
                                 (example_args None None (Some fifteen_refs))))) =
     [TextPart ''A cute robot!'' # replicate 14 (InlinePart ''image/png'' ''iVBORw0KGgo='')] \<and>
   warning_14 \<in> set (stderr (snd (run (example_world (Some ''env-key'') example_files Garbled)
                                      (example_args None None (Some fifteen_refs))))) \<and>
   map req_parts (posts (snd (run (example_world (Some ''env-key'') example_files Garbled)
                                 (example_args None None (Some [''ref.png'']))))) =
     [[TextPart ''A cute robot!'', InlinePart ''image/png'' ''iVBORw0KGgo='']]"
proof -
  let ?w = "example_world (Some ''env-key'') example_files Garbled"
  let ?a = "example_args None None (Some fifteen_refs)"
  let ?b = "example_args None None (Some [''ref.png''])"
  let ?parts = "TextPart ''A cute robot!'' # replicate 14 (InlinePart ''image/png'' ''iVBORw0KGgo='')"
  let ?one = "[TextPart ''A cute robot!'', InlinePart ''image/png'' ''iVBORw0KGgo='']"
  have k: "spec_resolved_key (arg_key ?a) (environ_GEMINI_API_KEY ?w) \<noteq> PLACEHOLDER_KEY"
    and kb: "spec_resolved_key (arg_key ?b) (environ_GEMINI_API_KEY ?w) \<noteq> PLACEHOLDER_KEY"
    by (simp_all add: spec_resolved_key_def PLACEHOLDER_KEY_def)
  note t1 = reference_images_first_14
    [where w = ?w and prompt = "''A cute robot!''" and refs = fifteen_refs and s = io0
       and parts = ?parts
       and s' = "io0\<lparr>stderr := warning_14 # replicate 14 (added_line ''ref.png'')\<rparr>"
       and v = ?w and a = ?a and req = "request_of ?w ?a ?parts"]
  have c1: "build_parts ?w ''A cute robot!'' (Some fifteen_refs) io0 =
     (Return ?parts, io0\<lparr>stderr := warning_14 # replicate 14 (added_line ''ref.png'')\<rparr>)"
    using t1 [THEN conjunct1] by (simp add: fifteen_refs_simps reference_part_example)
  have p: "posts (snd (run ?w ?a)) = [request_of ?w ?a ?parts]"
    by (rule run_posts_called [OF k]) (simp add: example_build_parts)
  have a: "arg_reference_images ?a = Some fifteen_refs" by simp
  from t1 [THEN conjunct2] p a have
    m: "map Some (req_parts (request_of ?w ?a ?parts)) =
          Some (TextPart (arg_prompt ?a)) # map (reference_part ?w) (take 14 fifteen_refs)"
    and wn: "14 < length fifteen_refs \<longrightarrow> warning_14 \<in> set (stderr (snd (run ?w ?a)))"
    by blast+
  from m have c2: "map req_parts (posts (snd (run ?w ?a))) = [?parts]"
    by (simp add: p request_of_def)
  from wn have c3: "warning_14 \<in> set (stderr (snd (run ?w ?a)))"
    by (simp add: fifteen_refs_simps)
  note t2 = reference_images_first_14
    [where w = ?w and prompt = "''A cute robot!''" and refs = "[''ref.png'']" and s = io0
       and parts = ?one and s' = io0
       and v = ?w and a = ?b and req = "request_of ?w ?b ?one"]
  have bb: "build_parts ?w (arg_prompt ?b) (arg_reference_images ?b) (banner ?b io0)
              = (Return ?one, eprint (added_line ''ref.png'') (banner ?b io0))"
    by (simp add: build_parts_Return_iff reference_part_example eprint_def)
  note pb = run_posts_called [OF kb bb]
  have ab: "arg_reference_images ?b = Some [''ref.png'']" by simp
  from t2 [THEN conjunct2] pb ab have
    "length [''ref.png''] \<le> 14 \<longrightarrow>
       map Some (req_parts (request_of ?w ?b ?one)) =
         Some (TextPart (arg_prompt ?b)) # map (reference_part ?w) [''ref.png'']"
    by blast
  then have c4: "map req_parts (posts (snd (run ?w ?b))) = [?one]"
    by (simp add: pb request_of_def)
  from c1 c2 c3 c4 show ?thesis by simp
qed

section \<open>A reference image that does not exist\<close>

lemma load_image_missing:
  "fs w (path_str (Path p)) = None \<Longrightarrow>
     load_image_as_base64 w p s = (SysExit 1, eprint (''Error: Reference image not found: '' @ p) s)"
  by (simp add: load_image_as_base64_def)

lemma add_reference_images_missing:
  assumes "\<forall>q \<in> set pre. \<exists>b. fs w (path_str (Path q)) = Some (File b)"
    and "fs w (path_str (Path p)) = None"
  shows "add_reference_images w (pre @ p # post) parts s =
           (SysExit 1, s\<lparr>stderr := stderr s @ map added_line pre
                                     @ [''Error: Reference image not found: '' @ p]\<rparr>)"
  using assms(1)
proof (induction pre arbitrary: parts s)
  case Nil
  show ?case by (simp add: load_image_missing [OF assms(2)] eprint_def)
next
  case (Cons q pre)
  from Cons.prems obtain b where b: "fs w (path_str (Path q)) = Some (File b)" by auto
  from Cons.prems have rest: "\<forall>q \<in> set pre. \<exists>b. fs w (path_str (Path q)) = Some (File b)"
    by simp
  show ?case
    by (simp add: load_image_as_base64_cases b Cons.IH [OF rest] added_line_def eprint_def)
qed

lemma add_reference_images_exit:
  "add_reference_images w refs parts s = (SysExit n, s') \<Longrightarrow> n = 1"
proof (induction refs arbitrary: parts s)
  case Nil
  then show ?case by simp
next
  case (Cons p refs)
  show ?case
  proof (cases "fs w (path_str (Path p))")
    case None
    with Cons.prems show ?thesis by (simp add: load_image_as_base64_cases)
  next
    case (Some nd)
    with Cons show ?thesis
      by (cases nd) (auto simp: load_image_as_base64_cases)
  qed
qed

lemma build_parts_exit:
  "build_parts w prompt refs s = (SysExit n, s') \<Longrightarrow> n = 1"
  by (auto simp: build_parts_def Let_def split: option.splits if_splits
        dest: add_reference_images_exit)

lemma build_parts_missing_no_Return:
  assumes "p \<in> set (take 14 refs)" "fs w (path_str (Path p)) = None"
  shows "build_parts w prompt (Some refs) s \<noteq> (Return parts, s')"
proof
  assume "build_parts w prompt (Some refs) s = (Return parts, s')"
  then have "map Some parts = Some (TextPart prompt) # map (reference_part w) (take 14 refs)"
    by (simp add: build_parts_Return_iff)
  then have "set (map (reference_part w) (take 14 refs)) \<subseteq> set (map Some parts)"
    by (metis set_subset_Cons list.simps(15))
  moreover from assms have "None \<in> set (map (reference_part w) (take 14 refs))"
    by (force simp: reference_part_def)
  ultimately show False by auto
qed

lemma build_parts_missing:
  assumes "take 14 refs = pre @ p # post"
    and "\<forall>q \<in> set pre. \<exists>b. fs w (path_str (Path q)) = Some (File b)"
    and "fs w (path_str (Path p)) = None"
  shows "build_parts w prompt (Some refs) s =
           (SysExit 1, s\<lparr>stderr := stderr s @ (if 14 < length refs then [warning_14] else [])
                                     @ map added_line pre
                                     @ [''Error: Reference image not found: '' @ p]\<rparr>)"
proof -
  from assms(1) have ne: "refs \<noteq> []" by auto
  show ?thesis
  proof (cases "14 < length refs")
    case True
    with ne show ?thesis
      by (simp add: build_parts_def assms(1) add_reference_images_missing [OF assms(2,3)]
            warning_14_def [symmetric] eprint_def)
  next
    case False
    with assms(1) have "refs = pre @ p # post" by simp
    with False ne show ?thesis
      by (simp add: build_parts_def add_reference_images_missing [OF assms(2,3)])
  qed
qed

text \<open>
  C6. When one of the reference image paths that are used, the first 14 of the list, does
  not exist, the run ends with exit status 1 and without a result, no request has been
  posted, no file has been written and nothing is on standard output. Loading a path that
  does not exist is the exit with status 1 after the line that names the path; and when
  the API key is configured and every used path before the missing one is a readable
  file, the run is exactly that exit, after the banner, the warning for a list longer than
  14 and the lines for the paths already added.
\<close>

theorem missing_reference_fatal:
  assumes "arg_reference_images a = Some refs"
    and "p \<in> set (take 14 refs)"
    and "fs w (path_str (Path p)) = None"
  shows "posts (snd (run w a)) = [] \<and> written (snd (run w a)) = [] \<and>
         stdout (snd (run w a)) = [] \<and> mkdirs (snd (run w a)) = [] \<and>
         exit_status (fst (run w a)) = 1 \<and> fst (run w a) \<noteq> Return () \<and>
         load_image_as_base64 w p s =
           (SysExit 1, eprint (''Error: Reference image not found: '' @ p) s) \<and>
         (spec_resolved_key (arg_key a) (environ_GEMINI_API_KEY w) \<noteq> PLACEHOLDER_KEY \<and>
          take 14 refs = pre @ p # post \<and>
          (\<forall>q \<in> set pre. \<exists>b. fs w (path_str (Path q)) = Some (File b)) \<longrightarrow>
            run w a =
              (SysExit 1,
               (banner a io0)\<lparr>stderr := stderr (banner a io0)
                  @ (if 14 < length refs then [warning_14] else [])
                  @ map added_line pre
                  @ [''Error: Reference image not found: '' @ p]\<rparr>))"
proof -
  have general: "posts (snd (run w a)) = [] \<and> written (snd (run w a)) = [] \<and>
         stdout (snd (run w a)) = [] \<and> mkdirs (snd (run w a)) = [] \<and>
         exit_status (fst (run w a)) = 1 \<and> fst (run w a) \<noteq> Return ()"
  proof (cases rule: run_cases [of a w])
    case bad_key
    then show ?thesis by (simp add: fold_eprint exit_status_def)
  next
    case (refs_exit n s1)
    from build_parts_exit [OF refs_exit(2)] have "n = 1" .
    with refs_exit(3) only_stderrD [OF build_parts_only_stderr [OF refs_exit(2)]]
    show ?thesis by (simp add: exit_status_def)
  next
    case (refs_raise e s1)
    with only_stderrD [OF build_parts_only_stderr [OF refs_raise(2)]]
    show ?thesis by (simp add: exit_status_def)
  next
    case (called parts s1 r2 s2)
    with build_parts_missing_no_Return [OF assms(2,3)] assms(1) show ?thesis by simp
  qed
  have exact: "spec_resolved_key (arg_key a) (environ_GEMINI_API_KEY w) \<noteq> PLACEHOLDER_KEY \<and>
          take 14 refs = pre @ p # post \<and>
          (\<forall>q \<in> set pre. \<exists>b. fs w (path_str (Path q)) = Some (File b)) \<longrightarrow>
            run w a =
              (SysExit 1,
               (banner a io0)\<lparr>stderr := stderr (banner a io0)
                  @ (if 14 < length refs then [warning_14] else [])
                  @ map added_line pre
                  @ [''Error: Reference image not found: '' @ p]\<rparr>)"
  proof (intro impI, elim conjE)
    assume k: "spec_resolved_key (arg_key a) (environ_GEMINI_API_KEY w) \<noteq> PLACEHOLDER_KEY"
      and t: "take 14 refs = pre @ p # post"
      and r: "\<forall>q \<in> set pre. \<exists>b. fs w (path_str (Path q)) = Some (File b)"
    show "run w a =
              (SysExit 1,
               (banner a io0)\<lparr>stderr := stderr (banner a io0)
                  @ (if 14 < length refs then [warning_14] else [])
                  @ map added_line pre
                  @ [''Error: Reference image not found: '' @ p]\<rparr>)"
      by (simp add: run_def main_def generate_image_good_key [OF k] assms(1)
            build_parts_missing [OF t r assms(3)])
  qed
  from general exact load_image_missing [OF assms(3)] show ?thesis by blast
qed

lemma path_example_missing: "path_str (Path ''missing.png'') = ''missing.png''"
  by (simp add: Path_def splitroot_def path_str_def)

theorem missing_reference_fatal_witness:
  "posts (snd (run (example_world (Some ''env-key'') example_files Garbled)
                   (example_args None None (Some [''ref.png'', ''missing.png''])))) = [] \<and>
   exit_status (fst (run (example_world (Some ''env-key'') example_files Garbled)
                   (example_args None None (Some [''ref.png'', ''missing.png''])))) = 1 \<and>
   run (example_world (Some ''env-key'') example_files Garbled)
       (example_args None None (Some [''ref.png'', ''missing.png''])) =
     (SysExit 1,
      io0\<lparr>stderr :=
        [''Generating image with gemini-3-pro-image-preview...'',
         ''Prompt: A cute robot!'',
         ''Aspect: 1:1, Size: 2K, Model: pro'',
         ''Reference images: 2'',
         ''Added reference image: ref.png'',
         ''Error: Reference image not found: missing.png'']\<rparr>)"
proof -
  let ?w = "example_world (Some ''env-key'') example_files Garbled"
  let ?a = "example_args None None (Some [''ref.png'', ''missing.png''])"
  have a: "arg_reference_images ?a = Some [''ref.png'', ''missing.png'']" by simp
  have m: "''missing.png'' \<in> set (take 14 [''ref.png'', ''missing.png''])" by simp
  have f: "fs ?w (path_str (Path ''missing.png'')) = None"
    by (simp add: path_example_missing example_files_def)
  have k: "spec_resolved_key (arg_key ?a) (environ_GEMINI_API_KEY ?w) \<noteq> PLACEHOLDER_KEY"
    by (simp add: spec_resolved_key_def PLACEHOLDER_KEY_def)
  have t: "take 14 [''ref.png'', ''missing.png''] = [''ref.png''] @ ''missing.png'' # []"
    by simp
  have r: "\<forall>q \<in> set [''ref.png'']. \<exists>b. fs ?w (path_str (Path q)) = Some (File b)"
    by (simp add: path_examples example_files_def)
  note th = missing_reference_fatal [OF a m f, where s = io0 and pre = "[''ref.png'']" and post = "[]"]
  from th have g: "posts (snd (run ?w ?a)) = []" "exit_status (fst (run ?w ?a)) = 1"
    by blast+
  from th k t r have "run ?w ?a =
      (SysExit 1,
       (banner ?a io0)\<lparr>stderr := stderr (banner ?a io0)
          @ (if 14 < length [''ref.png'', ''missing.png''] then [warning_14] else [])
          @ map added_line [''ref.png'']
          @ [''Error: Reference image not found: '' @ ''missing.png'']\<rparr>)"
    by blast
  then have e: "run ?w ?a =
     (SysExit 1,
      io0\<lparr>stderr :=
        [''Generating image with gemini-3-pro-image-preview...'',
         ''Prompt: A cute robot!'',
         ''Aspect: 1:1, Size: 2K, Model: pro'',
         ''Reference images: 2'',
         ''Added reference image: ref.png'',
         ''Error: Reference image not found: missing.png'']\<rparr>)"
    by (simp add: banner_def MODELS_def model_key_def added_line_def eprint_def io0_def
          str_nat.simps)
  from g e show ?thesis by blast
qed

text \<open>
  A path that does not exist beyond the 14th place is dropped with the rest of the excess:
  the run posts its request and ends normally.
\<close>

theorem missing_reference_beyond_14:
  "''missing.png'' \<in> set fifteen_refs \<and>
   fs (example_world (Some ''env-key'') example_files
         (Response (example_response ''/9j/4A=='' (Some ''image/png''))))
      (path_str (Path ''missing.png'')) = None \<and>
   fst (run (example_world (Some ''env-key'') example_files
               (Response (example_response ''/9j/4A=='' (Some ''image/png''))))
            (example_args (Some ''out.png'') None (Some fifteen_refs))) = Return () \<and>
   length (posts (snd (run (example_world (Some ''env-key'') example_files
               (Response (example_response ''/9j/4A=='' (Some ''image/png''))))
            (example_args (Some ''out.png'') None (Some fifteen_refs))))) = 1"
proof -
  let ?res = "example_response ''/9j/4A=='' (Some ''image/png'')"
  let ?w = "example_world (Some ''env-key'') example_files (Response ?res)"
  let ?a = "example_args (Some ''out.png'') None (Some fifteen_refs)"
  let ?q = "\<lparr>path_root = [], path_parts = [''out.jpg'']\<rparr>"
  let ?parts = "TextPart ''A cute robot!'' # replicate 14 (InlinePart ''image/png'' ''iVBORw0KGgo='')"
  let ?s1 = "(banner ?a io0)\<lparr>stderr := stderr (banner ?a io0)
               @ warning_14 # replicate 14 (added_line ''ref.png'')\<rparr>"
  have f: "fs ?w (path_str (Path ''missing.png'')) = None"
    by (simp add: path_example_missing example_files_def)
  have k: "spec_resolved_key (arg_key ?a) (environ_GEMINI_API_KEY ?w) \<noteq> PLACEHOLDER_KEY"
    by (simp add: spec_resolved_key_def PLACEHOLDER_KEY_def)
  have b: "build_parts ?w (arg_prompt ?a) (arg_reference_images ?a) (banner ?a io0)
             = (Return ?parts, ?s1)"
    by (simp add: example_build_parts)
  have u: "urlopen ?w (request_of ?w ?a ?parts) = Response ?res"
    by simp
  have d: "b64decode ?w ''/9j/4A=='' = Some jpeg_image"
    by simp
  let ?inl = "\<lparr>inline_data_field = Some ''/9j/4A=='', inline_mimeType = Some ''image/png''\<rparr>"
  let ?p = "\<lparr>part_inlineData = Some ?inl, part_text = None\<rparr>"
  let ?t = "\<lparr>part_inlineData = None, part_text = Some ''Here is your image.''\<rparr>"
  let ?c = "\<lparr>cand_content = Some (Some ([?t] @ ?p # []))\<rparr>"
  have none: "\<forall>x \<in> set [?t]. part_inlineData x = None" by simp
  have c2: "cand_content ?c = Some (Some ([?t] @ ?p # []))"
    and c4: "part_inlineData ?p = Some ?inl"
    and c5: "inline_data_field ?inl = Some ''/9j/4A==''"
    by simp_all
  have q: "with_suffix (requested_path ?w ?a) (snd (detect_image_format jpeg_image)) = Inr ?q"
    by (simp add: requested_path_given sniff_examples path_examples)
  have ok: "mkdir_ok ?w (path_str (path_parent ?q))" "write_ok ?w (path_str ?q)"
    by simp_all
  note r = run_saves_sniffed(1) [OF k b u example_response_shape c2 none c4 c5 d q ok]
  note p = run_posts_called [OF k b]
  from f r p show ?thesis by (simp add: fifteen_refs_simps)
qed

section \<open>The note on the extension\<close>


lemma get_extension_nonempty [simp]: "get_extension m \<noteq> []"
  using plain_ext_get_extension [of m] by (auto simp: plain_ext_def simp del: plain_ext_get_extension)

lemma path_suffix_empty [simp]: "path_suffix (Path []) = []"
  by (simp add: Path_def splitroot_def path_suffix_def path_name_def)











section \<open>The generated file name\<close>

lemma of_char_lower_char:
  "(of_char (lower_char c) :: nat) =
     (if (65 \<le> (of_char c :: nat) \<and> (of_char c :: nat) \<le> 90) \<or> (192 \<le> (of_char c :: nat) \<and> (of_char c :: nat) \<le> 214)
         \<or> (216 \<le> (of_char c :: nat) \<and> (of_char c :: nat) \<le> 222)
      then of_char c + 32 else of_char c)"
  by (auto simp: lower_char_def Let_def)

lemma is_word_lower_char [simp]: "is_word (lower_char c) = is_word c"
  unfolding is_word_def Let_def of_char_lower_char by auto

lemma is_space_lower_char [simp]: "is_space (lower_char c) = is_space c"
  unfolding is_space_def Let_def of_char_lower_char by auto

lemma of_char_hyphen: "(of_char (CHR ''-'') :: nat) = 45" "(of_char (CHR ''/'') :: nat) = 47"
  "(of_char (CHR ''.'') :: nat) = 46"
  by simp_all

lemma char_eq_of_char: "c = d \<longleftrightarrow> (of_char c :: nat) = of_char d"
  by simp

lemma hyphen_lower_char [simp]: "lower_char c = CHR ''-'' \<longleftrightarrow> c = CHR ''-''"
  unfolding char_eq_of_char [of _ "CHR ''-''"] of_char_lower_char of_char_hyphen by auto

lemma lower_char_idem [simp]: "lower_char (lower_char c) = lower_char c"
  unfolding char_eq_of_char [of "lower_char (lower_char c)"] of_char_lower_char by auto











lemma slug_nonempty [simp]: "slug_of p \<noteq> []"
  by (simp add: slug_of_def Let_def)














end
